theory Spec2Isabelle
  imports Main "HOL-Library.Sublist"
begin

section \<open>The vanity import page generator (cmd/generator/main.go)\<close>

text \<open>
  The generator lists the repositories of an organisation, keeps the Go repositories
  whose \<^verbatim>\<open>go.mod\<close> declares a module under \<^verbatim>\<open>pkg.blksails.net\<close>, writes one
  redirect page per import path and one index page. Go strings are byte sequences, so a
  Go \<^verbatim>\<open>string\<close> is a \<^typ>\<open>string\<close> here: a list of 8-bit characters.
\<close>

subsection \<open>Package \<^verbatim>\<open>strings\<close> of the Go standard library\<close>

text \<open>
  \<^verbatim>\<open>HasPrefix\<close>, \<^verbatim>\<open>HasSuffix\<close> and \<^verbatim>\<open>TrimPrefix\<close> are written as in the library:
  \<^verbatim>\<open>len(s) >= len(prefix) && s[:len(prefix)] == prefix\<close>, and so on.
\<close>

definition HasPrefix :: "string \<Rightarrow> string \<Rightarrow> bool" where
  "HasPrefix s pre = (length pre \<le> length s \<and> take (length pre) s = pre)"

definition HasSuffix :: "string \<Rightarrow> string \<Rightarrow> bool" where
  "HasSuffix s suf = (length suf \<le> length s \<and> drop (length s - length suf) s = suf)"

definition TrimPrefix :: "string \<Rightarrow> string \<Rightarrow> string" where
  "TrimPrefix s pre = (if HasPrefix s pre then drop (length pre) s else s)"

text \<open>
  \<^verbatim>\<open>strings.Split(s, sep)\<close> for a separator of one byte, the only use the program makes
  of it: the pieces between the separators, in order; a text without separator is one
  piece, the empty text included.
\<close>

fun Split :: "string \<Rightarrow> char \<Rightarrow> string list" where
  "Split [] sep = [[]]"
| "Split (c # cs) sep =
     (if c = sep then [] # Split cs sep
      else (case Split cs sep of [] \<Rightarrow> [[c]] | l # ls \<Rightarrow> (c # l) # ls))"

text \<open>\<^verbatim>\<open>strings.Join(elems, sep)\<close>.\<close>

fun strings_Join :: "string list \<Rightarrow> string \<Rightarrow> string" where
  "strings_Join [] sep = []"
| "strings_Join [e] sep = e"
| "strings_Join (e # es) sep = e @ sep @ strings_Join es sep"

text \<open>
  \<^verbatim>\<open>strings.TrimSpace\<close> removes the leading and then the trailing white space runes, as
  \<^verbatim>\<open>unicode.IsSpace\<close> defines them: U+0009 to U+000D, U+0020, U+0085, U+00A0, U+1680,
  U+2000 to U+200A, U+2028, U+2029, U+202F, U+205F and U+3000. A rune is white space
  exactly when the bytes read are its UTF-8 encoding (an invalid byte decodes to
  U+FFFD, which is not white space), so trimming removes these encodings from the
  front and from the back.
\<close>

definition white_space :: "string list" where
  "white_space =
     [[CHR 0x09], [CHR 0x0A], [CHR 0x0B], [CHR 0x0C], [CHR 0x0D], [CHR 0x20],
      [CHR 0xC2, CHR 0x85], [CHR 0xC2, CHR 0xA0],
      [CHR 0xE1, CHR 0x9A, CHR 0x80],
      [CHR 0xE2, CHR 0x80, CHR 0x80], [CHR 0xE2, CHR 0x80, CHR 0x81],
      [CHR 0xE2, CHR 0x80, CHR 0x82], [CHR 0xE2, CHR 0x80, CHR 0x83],
      [CHR 0xE2, CHR 0x80, CHR 0x84], [CHR 0xE2, CHR 0x80, CHR 0x85],
      [CHR 0xE2, CHR 0x80, CHR 0x86], [CHR 0xE2, CHR 0x80, CHR 0x87],
      [CHR 0xE2, CHR 0x80, CHR 0x88], [CHR 0xE2, CHR 0x80, CHR 0x89],
      [CHR 0xE2, CHR 0x80, CHR 0x8A],
      [CHR 0xE2, CHR 0x80, CHR 0xA8], [CHR 0xE2, CHR 0x80, CHR 0xA9],
      [CHR 0xE2, CHR 0x80, CHR 0xAF],
      [CHR 0xE2, CHR 0x81, CHR 0x9F],
      [CHR 0xE3, CHR 0x80, CHR 0x80]]"

text \<open>The number of bytes of the white space rune a text starts with, or ends with; 0 if none.\<close>

definition leading_space :: "string \<Rightarrow> nat" where
  "leading_space s = (case find (HasPrefix s) white_space of None \<Rightarrow> 0 | Some w \<Rightarrow> length w)"

definition trailing_space :: "string \<Rightarrow> nat" where
  "trailing_space s = (case find (HasSuffix s) white_space of None \<Rightarrow> 0 | Some w \<Rightarrow> length w)"

function TrimLeft :: "string \<Rightarrow> string" where
  "TrimLeft s = (if leading_space s = 0 then s else TrimLeft (drop (leading_space s) s))"
  by pat_completeness auto
termination
proof (relation "measure length")
  show "wf (measure length)" by simp
next
  fix s :: string
  assume "leading_space s \<noteq> 0"
  moreover have "leading_space s \<le> length s"
    by (auto simp: leading_space_def HasPrefix_def split: option.splits
          dest: find_Some_iff [THEN iffD1])
  ultimately show "(drop (leading_space s) s, s) \<in> measure length"
    by simp
qed

function TrimRight :: "string \<Rightarrow> string" where
  "TrimRight s =
     (if trailing_space s = 0 then s else TrimRight (take (length s - trailing_space s) s))"
  by pat_completeness auto
termination
proof (relation "measure length")
  show "wf (measure length)" by simp
next
  fix s :: string
  assume "trailing_space s \<noteq> 0"
  moreover have "trailing_space s \<le> length s"
    by (auto simp: trailing_space_def HasSuffix_def split: option.splits
          dest: find_Some_iff [THEN iffD1])
  ultimately show "(take (length s - trailing_space s) s, s) \<in> measure length"
    by simp
qed

declare TrimLeft.simps [simp del] TrimRight.simps [simp del]

definition TrimSpace :: "string \<Rightarrow> string" where
  "TrimSpace s = TrimRight (TrimLeft s)"

subsection \<open>Package \<^verbatim>\<open>path/filepath\<close> of the Go standard library (Unix)\<close>

text \<open>
  \<^verbatim>\<open>filepath.Clean\<close> reads the path element by element: an empty element and \<^verbatim>\<open>.\<close>
  are dropped; \<^verbatim>\<open>..\<close> removes the element before it when there is one that is not
  itself \<^verbatim>\<open>..\<close>, is dropped at the root of a rooted path, and is kept otherwise. The
  elements left are joined by single slashes; the empty result is \<^verbatim>\<open>.\<close>.
\<close>

definition clean_elem :: "bool \<Rightarrow> string list \<Rightarrow> string \<Rightarrow> string list" where
  "clean_elem rooted out e =
     (if e = '''' \<or> e = ''.'' then out
      else if e = ''..'' then
        (if out \<noteq> [] \<and> last out \<noteq> ''..'' then butlast out
         else if rooted then out
         else out @ [''..''])
      else out @ [e])"

definition filepath_Clean :: "string \<Rightarrow> string" where
  "filepath_Clean path =
     (if path = '''' then ''.''
      else
        let rooted = (hd path = CHR ''/'');
            out = foldl (clean_elem rooted) [] (Split path (CHR ''/''))
        in if rooted then ''/'' @ strings_Join out ''/''
           else if out = [] then ''.''
           else strings_Join out ''/'')"

text \<open>
  \<^verbatim>\<open>filepath.Dir\<close> cleans the path up to and including its last slash.
  \<^verbatim>\<open>filepath.Join\<close> drops the leading empty elements, joins the rest with slashes and
  cleans the result; with no element left the result is empty.
\<close>

definition filepath_Dir :: "string \<Rightarrow> string" where
  "filepath_Dir path = filepath_Clean (rev (dropWhile (\<lambda>c. c \<noteq> CHR ''/'') (rev path)))"

fun filepath_Join :: "string list \<Rightarrow> string" where
  "filepath_Join [] = ''''"
| "filepath_Join (e # es) =
     (if e \<noteq> '''' then filepath_Clean (strings_Join (e # es) ''/'') else filepath_Join es)"

subsection \<open>Data\<close>

text \<open>The constants of main.go, lines 16 to 20.\<close>

definition orgName :: string where
  "orgName = ''blksails''"

definition baseDomain :: string where
  "baseDomain = ''pkg.blksails.net''"

definition basePackage :: string where
  "basePackage = ''pkg.blksails.net''"

record PackageInfo =
  ImportPath :: string
  RepoURL :: string
  Description :: string

text \<open>
  The types of go-github the program reads. Their fields are pointers, and each getter
  returns the empty string for a nil pointer.
\<close>

record Repository =
  repo_Name :: "string option"
  repo_Language :: "string option"
  repo_HTMLURL :: "string option"
  repo_Description :: "string option"

record RepositoryContent =
  content_Type :: "string option"
  content_Name :: "string option"
  content_Path :: "string option"

definition get_string :: "string option \<Rightarrow> string" where
  "get_string p = (case p of None \<Rightarrow> '''' | Some v \<Rightarrow> v)"

definition GetName :: "Repository \<Rightarrow> string" where
  "GetName repo = get_string (repo_Name repo)"

definition GetLanguage :: "Repository \<Rightarrow> string" where
  "GetLanguage repo = get_string (repo_Language repo)"

definition GetHTMLURL :: "Repository \<Rightarrow> string" where
  "GetHTMLURL repo = get_string (repo_HTMLURL repo)"

definition GetDescription :: "Repository \<Rightarrow> string" where
  "GetDescription repo = get_string (repo_Description repo)"

definition content_GetType :: "RepositoryContent \<Rightarrow> string" where
  "content_GetType content = get_string (content_Type content)"

definition content_GetName :: "RepositoryContent \<Rightarrow> string" where
  "content_GetName content = get_string (content_Name content)"

definition content_GetPath :: "RepositoryContent \<Rightarrow> string" where
  "content_GetPath content = get_string (content_Path content)"

text \<open>A Go \<^verbatim>\<open>error\<close> is read through its message only.\<close>

type_synonym error = string

text \<open>
  What creating and writing a file can do: \<^verbatim>\<open>os.Create\<close> fails, or the execution of the
  template fails after some bytes of the document have reached the file, or the whole
  document is written.
\<close>

datatype write_outcome = CreateFails error | ExecuteFails nat error | Written

text \<open>
  Everything outside the program: the environment variables, the answers of the GitHub
  client for the organisation \<open>orgName\<close>, and the file system.

  The client answers the listing of the repositories and, per repository name, the
  listing of the root directory and the request for \<^verbatim>\<open>go.mod\<close>. \<^verbatim>\<open>GetContents\<close> returns a
  file, a directory listing and an error. For \<^verbatim>\<open>go.mod\<close> the answer is an error, or no
  error and no file (\<open>None\<close>: the path is a directory, and the file returned is nil),
  or the file, whose \<^verbatim>\<open>GetContent\<close> decodes the content or fails to decode it.

  The file system says what happens at the n-th call of \<^verbatim>\<open>generateHTML\<close>
  (\<^verbatim>\<open>os.MkdirAll\<close> fails, or the write goes as told), and at the write of the index.
\<close>

record World =
  environ :: "string \<rightharpoonup> string"
  ListByOrg :: "error + Repository list"
  GetContents_root :: "string \<Rightarrow> error + RepositoryContent list"
  GetContents_go_mod :: "string \<Rightarrow> error + (error + string) option"
  page_io :: "nat \<Rightarrow> error + write_outcome"
  index_io :: write_outcome

definition Getenv :: "World \<Rightarrow> string \<Rightarrow> string" where
  "Getenv w key = (case environ w key of None \<Rightarrow> '''' | Some v \<Rightarrow> v)"

text \<open>
  The escaping functions that \<^verbatim>\<open>html/template\<close> inserts, by the context of the action:
  in element text, in a quoted attribute value, and at the start of a quoted URL
  attribute (filter, normaliser and attribute escaper in a row). They belong to the
  library, not to this program, and are parameters of the model.
\<close>

record html_template =
  htmlescaper :: "string \<Rightarrow> string"
  attrescaper :: "string \<Rightarrow> string"
  urlescaper :: "string \<Rightarrow> string"

text \<open>
  The state of a run: the slice \<^verbatim>\<open>packages\<close> of \<^verbatim>\<open>main\<close>, the files written under
  \<^verbatim>\<open>public\<close>, the messages logged, and the records \<^verbatim>\<open>generateHTML\<close> has been called
  with, in order.
\<close>

record State =
  packages :: "PackageInfo list"
  files :: "string \<rightharpoonup> string"
  logged :: "string list"
  rendered :: "PackageInfo list"

definition init :: State where
  "init = \<lparr>packages = [], files = Map.empty, logged = [], rendered = []\<rparr>"

subsection \<open>The page renderers\<close>

definition nl :: string where
  "nl = [CHR 0x0A]"

text \<open>The document of the template of \<^verbatim>\<open>generateHTML\<close> (main.go, lines 131 to 142).\<close>

definition import_page :: "html_template \<Rightarrow> PackageInfo \<Rightarrow> string" where
  \<open>import_page esc pkg = strings_Join
     [''<!DOCTYPE html>'',
      ''<html>'',
      ''<head>'',
      ''    <meta charset="utf-8">'',
      ''    <meta name="go-import" content="'' @ attrescaper esc (ImportPath pkg) @ '' git ''
        @ attrescaper esc (RepoURL pkg) @ ''">'',
      ''    <meta name="go-source" content="'' @ attrescaper esc (ImportPath pkg) @ '' ''
        @ attrescaper esc (RepoURL pkg) @ '' '' @ attrescaper esc (RepoURL pkg)
        @ ''/tree/master{/dir} '' @ attrescaper esc (RepoURL pkg)
        @ ''/blob/master{/dir}/{file}#L{line}">'',
      ''    <meta http-equiv="refresh" content="0; url='' @ attrescaper esc (RepoURL pkg) @ ''">'',
      ''</head>'',
      ''<body>'',
      ''    Redirecting to <a href="'' @ urlescaper esc (RepoURL pkg) @ ''">''
        @ htmlescaper esc (RepoURL pkg) @ ''</a>...'',
      ''</body>'',
      ''</html>''] nl\<close>

text \<open>
  \<^verbatim>\<open>generateHTML\<close> (main.go, lines 130 to 163). It returns the error, if any, and the
  new state.
\<close>

definition generateHTML ::
  "html_template \<Rightarrow> World \<Rightarrow> PackageInfo \<Rightarrow> State \<Rightarrow> error option \<times> State" where
  "generateHTML esc w pkg s =
     (let relPath = TrimPrefix (ImportPath pkg) (baseDomain @ ''/'');
          dirPath = filepath_Join [''public'', relPath];
          s' = s\<lparr>rendered := rendered s @ [pkg]\<rparr>
      in case page_io w (length (rendered s)) of
           Inl err \<Rightarrow> (Some (''failed to create directory: '' @ err), s')
         | Inr (CreateFails err) \<Rightarrow> (Some (''failed to create file: '' @ err), s')
         | Inr (ExecuteFails n err) \<Rightarrow>
             (Some (''failed to execute template: '' @ err),
              s'\<lparr>files := (files s')(filepath_Join [dirPath, ''index.html'']
                  \<mapsto> take n (import_page esc pkg))\<rparr>)
         | Inr Written \<Rightarrow>
             (None,
              s'\<lparr>files := (files s')(filepath_Join [dirPath, ''index.html'']
                  \<mapsto> import_page esc pkg)\<rparr>))"

text \<open>
  The template of \<^verbatim>\<open>generateIndexHTML\<close> (main.go, lines 166 to 222): the text before
  \<^verbatim>\<open>{{range .}}\<close>, the body of the range for one record, with the paragraph of the
  description inside \<^verbatim>\<open>{{if .Description}}\<close>, and the text after the range.
\<close>

definition index_head :: string where
  \<open>index_head = strings_Join
     [''<!DOCTYPE html>'',
      ''<html>'',
      ''<head>'',
      ''    <meta charset="utf-8">'',
      ''    <title>pkg.blksails.net</title>'',
      ''    <style>'',
      ''        body {'',
      ''            font-family: -apple-system, BlinkMacSystemFont, 'Segoe UI', Roboto, Oxygen, Ubuntu, Cantarell, 'Open Sans', 'Helvetica Neue', sans-serif;'',
      ''            max-width: 800px;'',
      ''            margin: 0 auto;'',
      ''            padding: 2rem;'',
      ''            line-height: 1.6;'',
      ''        }'',
      ''        .package-list {'',
      ''            margin-top: 2rem;'',
      ''        }'',
      ''        .package-item {'',
      ''            margin-bottom: 1.5rem;'',
      ''            padding: 1rem;'',
      ''            border: 1px solid #eee;'',
      ''            border-radius: 4px;'',
      ''        }'',
      ''        .package-item h3 {'',
      ''            margin: 0 0 0.5rem 0;'',
      ''        }'',
      ''        .package-item p {'',
      ''            margin: 0.5rem 0;'',
      ''            color: #666;'',
      ''        }'',
      ''        code {'',
      ''            background: #f5f5f5;'',
      ''            padding: 0.2rem 0.4rem;'',
      ''            border-radius: 3px;'',
      ''            font-size: 0.9em;'',
      ''        }'',
      ''    </style>'',
      ''</head>'',
      ''<body>'',
      ''    <h1>pkg.blksails.net</h1>'',
      ''    <p>This is the package index for blksails Go packages.</p>'',
      ''    <p>To use these packages in your Go project, simply import them using the <code>pkg.blksails.net/...</code>'',
      ''        import path.</p>'',
      ''    '',
      ''    <div class="package-list">'',
      ''        <h2>Available Packages</h2>'',
      ''        ''] nl\<close>

definition index_item :: "html_template \<Rightarrow> PackageInfo \<Rightarrow> string" where
  \<open>index_item esc pkg = strings_Join
     ['''',
      ''        <div class="package-item">'',
      ''            <h3><a href="'' @ urlescaper esc (RepoURL pkg) @ ''">''
        @ htmlescaper esc (ImportPath pkg) @ ''</a></h3>'',
      ''            '' @
        (if Description pkg \<noteq> ''''
         then strings_Join ['''', ''            <p>'' @ htmlescaper esc (Description pkg) @ ''</p>'',
                ''            ''] nl
         else ''''),
      ''            <p><code>go get '' @ htmlescaper esc (ImportPath pkg) @ ''</code></p>'',
      ''        </div>'',
      ''        ''] nl\<close>

definition index_tail :: string where
  \<open>index_tail = strings_Join ['''', ''    </div>'', ''</body>'', ''</html>''] nl\<close>

definition index_page :: "html_template \<Rightarrow> PackageInfo list \<Rightarrow> string" where
  "index_page esc pkgs = index_head @ concat (map (index_item esc) pkgs) @ index_tail"

text \<open>\<^verbatim>\<open>generateIndexHTML\<close> (main.go, lines 165 to 235).\<close>

definition generateIndexHTML ::
  "html_template \<Rightarrow> World \<Rightarrow> PackageInfo list \<Rightarrow> State \<Rightarrow> error option \<times> State" where
  "generateIndexHTML esc w pkgs s =
     (case index_io w of
        CreateFails err \<Rightarrow> (Some (''failed to create index file: '' @ err), s)
      | ExecuteFails n err \<Rightarrow>
          (Some (''failed to execute template: '' @ err),
           s\<lparr>files := (files s)(''public/index.html'' \<mapsto> take n (index_page esc pkgs))\<rparr>)
      | Written \<Rightarrow>
          (None, s\<lparr>files := (files s)(''public/index.html'' \<mapsto> index_page esc pkgs)\<rparr>))"

subsection \<open>The manifest parser\<close>

text \<open>
  \<^verbatim>\<open>parseModuleName\<close> (main.go, lines 120 to 128): the loop over the lines returns at
  the first line that, trimmed, starts with \<^verbatim>\<open>module \<close>; after the loop the result is
  the empty string.
\<close>

fun parseModuleName_loop :: "string list \<Rightarrow> string" where
  "parseModuleName_loop [] = ''''"
| "parseModuleName_loop (line # lines) =
     (if HasPrefix (TrimSpace line) ''module ''
      then TrimSpace (TrimPrefix (TrimSpace line) ''module '')
      else parseModuleName_loop lines)"

definition parseModuleName :: "string \<Rightarrow> string" where
  "parseModuleName content = parseModuleName_loop (Split content (CHR 0x0A))"

subsection \<open>The orchestrator\<close>

text \<open>\<^verbatim>\<open>if err := ...; err != nil { log.Printf(msg + "%v", err) }\<close>\<close>

definition log_error :: "string \<Rightarrow> error option \<times> State \<Rightarrow> State" where
  "log_error msg r =
     (case r of
        (None, s) \<Rightarrow> s
      | (Some err, s) \<Rightarrow> s\<lparr>logged := logged s @ [msg @ err]\<rparr>)"

text \<open>The loop over the directory listing (main.go, lines 95 to 111).\<close>

fun subdirectories ::
  "html_template \<Rightarrow> World \<Rightarrow> string \<Rightarrow> Repository \<Rightarrow> RepositoryContent list \<Rightarrow> State \<Rightarrow> State"
where
  "subdirectories esc w moduleName repo [] s = s"
| "subdirectories esc w moduleName repo (content # contents) s =
     (if content_GetType content = ''file'' \<and> HasSuffix (content_GetName content) ''.go'' then
        (let dir = filepath_Dir (content_GetPath content) in
         if dir = ''.'' then subdirectories esc w moduleName repo contents s
         else
           let subPkgInfo = \<lparr>ImportPath = filepath_Join [moduleName, dir],
                             RepoURL = GetHTMLURL repo,
                             Description = GetDescription repo\<rparr>
           in subdirectories esc w moduleName repo contents
                (log_error (''Error generating HTML for '' @ ImportPath subPkgInfo @ '': '')
                   (generateHTML esc w subPkgInfo s)))
      else subdirectories esc w moduleName repo contents s)"

text \<open>
  A run ends before its time in two ways: \<^verbatim>\<open>log.Fatal\<close> (exit status 1) and a panic
  (exit status 2). The result is then the message; the files written before a panic
  stay where they are and are not part of the result.
\<close>

datatype abort = Fatal error | Panic error

text \<open>
  The body of the loop over the repositories (main.go, lines 50 to 111). Each
  \<^verbatim>\<open>continue\<close> leaves the state as it is, but for the message logged when the listing
  of the root directory fails. Line 67 calls \<^verbatim>\<open>modContent.GetContent()\<close> after a check of
  \<^verbatim>\<open>err\<close> alone: when \<^verbatim>\<open>GetContents\<close> gave no error and no file, the receiver is nil,
  \<^verbatim>\<open>GetContent\<close> reads a field of it, and the run panics.
\<close>

definition nil_dereference :: error where
  "nil_dereference = ''runtime error: invalid memory address or nil pointer dereference''"

definition repository ::
  "html_template \<Rightarrow> World \<Rightarrow> Repository \<Rightarrow> State \<Rightarrow> abort + State" where
  "repository esc w repo s =
     (if GetLanguage repo \<noteq> ''Go'' then Inr s
      else case GetContents_root w (GetName repo) of
        Inl err \<Rightarrow>
          Inr (s\<lparr>logged := logged s @
                 [''Error getting contents for '' @ GetName repo @ '': '' @ err]\<rparr>)
      | Inr contents \<Rightarrow>
          (case GetContents_go_mod w (GetName repo) of
             Inl err \<Rightarrow> Inr s
           | Inr modContent \<Rightarrow>
               (case modContent of
                  None \<Rightarrow> Inl (Panic nil_dereference)
                | Some file \<Rightarrow>
                    (case file of
                       Inl err \<Rightarrow> Inr s
                     | Inr fileContent \<Rightarrow>
                         (let moduleName = parseModuleName fileContent in
                          if \<not> HasPrefix moduleName basePackage then Inr s
                          else
                            let s1 = s\<lparr>packages := packages s @
                                       [\<lparr>ImportPath = moduleName,
                                         RepoURL = GetHTMLURL repo,
                                         Description = GetDescription repo\<rparr>]\<rparr>;
                                pkgInfo = \<lparr>ImportPath = moduleName,
                                           RepoURL = GetHTMLURL repo,
                                           Description = GetDescription repo\<rparr>;
                                s2 = log_error
                                       (''Error generating HTML for '' @ moduleName @ '': '')
                                       (generateHTML esc w pkgInfo s1)
                            in Inr (subdirectories esc w moduleName repo contents s2))))))"

text \<open>The loop over the repositories: a panic in the body ends it.\<close>

fun repositories ::
  "html_template \<Rightarrow> World \<Rightarrow> Repository list \<Rightarrow> State \<Rightarrow> abort + State" where
  "repositories esc w [] s = Inr s"
| "repositories esc w (repo # repos) s =
     (case repository esc w repo s of
        Inl a \<Rightarrow> Inl a
      | Inr s' \<Rightarrow> repositories esc w repos s')"

text \<open>
  \<^verbatim>\<open>main\<close> (main.go, lines 28 to 118): the abort, or the state at the end of the run.
\<close>

definition main :: "html_template \<Rightarrow> World \<Rightarrow> abort + State" where
  "main esc w =
     (let token = Getenv w ''GITHUB_TOKEN'' in
      if token = '''' then Inl (Fatal ''GITHUB_TOKEN environment variable is required'')
      else case ListByOrg w of
        Inl err \<Rightarrow> Inl (Fatal (''Error listing repositories: '' @ err))
      | Inr repos \<Rightarrow>
          (case repositories esc w repos init of
             Inl a \<Rightarrow> Inl a
           | Inr s \<Rightarrow>
               Inr (log_error ''Error generating index HTML: ''
                      (generateIndexHTML esc w (packages s) s))))"

subsection \<open>Notions used in the statements\<close>

text \<open>
  The module identifier of a repository: what \<open>parseModuleName\<close> reads in its
  \<^verbatim>\<open>go.mod\<close>, when the file is fetched and decoded.
\<close>

definition module_identifier :: "World \<Rightarrow> Repository \<Rightarrow> string option" where
  "module_identifier w repo =
     (case GetContents_go_mod w (GetName repo) of
        Inl err \<Rightarrow> None
      | Inr modContent \<Rightarrow>
          (case modContent of
             None \<Rightarrow> None
           | Some file \<Rightarrow>
               (case file of
                  Inl err \<Rightarrow> None
                | Inr fileContent \<Rightarrow> Some (parseModuleName fileContent))))"

text \<open>The listing of the root directory of a repository; empty when the call fails.\<close>

definition listing :: "World \<Rightarrow> Repository \<Rightarrow> RepositoryContent list" where
  "listing w repo =
     (case GetContents_root w (GetName repo) of Inl err \<Rightarrow> [] | Inr contents \<Rightarrow> contents)"

text \<open>
  A repository passes every check of the loop body: it is a Go repository, the listing
  of its root directory succeeds, and its module identifier exists and starts with
  \<open>basePackage\<close>.
\<close>

definition qualifying :: "World \<Rightarrow> Repository \<Rightarrow> bool" where
  "qualifying w repo =
     (GetLanguage repo = ''Go'' \<and> \<not> isl (GetContents_root w (GetName repo)) \<and>
      (case module_identifier w repo of None \<Rightarrow> False | Some m \<Rightarrow> HasPrefix m basePackage))"

text \<open>
  A repository at which the run panics: a Go repository whose root directory is listed
  and whose \<^verbatim>\<open>go.mod\<close> is answered with no error and no file.
\<close>

definition panicking :: "World \<Rightarrow> Repository \<Rightarrow> bool" where
  "panicking w repo =
     (GetLanguage repo = ''Go'' \<and> \<not> isl (GetContents_root w (GetName repo)) \<and>
      GetContents_go_mod w (GetName repo) = Inr None)"

text \<open>The record of the module itself, and the record of the directory of a listed file.\<close>

definition root_record :: "Repository \<Rightarrow> string \<Rightarrow> PackageInfo" where
  "root_record repo moduleName =
     \<lparr>ImportPath = moduleName, RepoURL = GetHTMLURL repo, Description = GetDescription repo\<rparr>"

definition sub_record :: "Repository \<Rightarrow> string \<Rightarrow> RepositoryContent \<Rightarrow> PackageInfo" where
  "sub_record repo moduleName content =
     \<lparr>ImportPath = filepath_Join [moduleName, filepath_Dir (content_GetPath content)],
      RepoURL = GetHTMLURL repo, Description = GetDescription repo\<rparr>"

text \<open>A listed entry is a Go source file outside the root directory.\<close>

definition subdirectory_source :: "RepositoryContent \<Rightarrow> bool" where
  "subdirectory_source content =
     (content_GetType content = ''file'' \<and> HasSuffix (content_GetName content) ''.go'' \<and>
      filepath_Dir (content_GetPath content) \<noteq> ''.'')"

text \<open>
  The records of a repository: those that reach the slice \<^verbatim>\<open>packages\<close>, and those that
  \<^verbatim>\<open>generateHTML\<close> is called with. The latter are the records of the path expander of
  the specification, \<open>expand\<close>, written after its description there: the root record,
  then one record per source file outside the root directory, duplicates kept.
\<close>

definition registered :: "World \<Rightarrow> Repository \<Rightarrow> PackageInfo list" where
  "registered w repo =
     (case module_identifier w repo of
        None \<Rightarrow> []
      | Some m \<Rightarrow> if qualifying w repo then [root_record repo m] else [])"

definition expand :: "string \<Rightarrow> Repository \<Rightarrow> RepositoryContent list \<Rightarrow> PackageInfo list" where
  "expand moduleName repo contents =
     root_record repo moduleName #
     map (sub_record repo moduleName) (filter subdirectory_source contents)"

definition emitted :: "World \<Rightarrow> Repository \<Rightarrow> PackageInfo list" where
  "emitted w repo =
     (case module_identifier w repo of
        None \<Rightarrow> []
      | Some m \<Rightarrow> if qualifying w repo then expand m repo (listing w repo) else [])"

text \<open>A record is listed on a page when the page holds its item of the index template.\<close>

definition lists_record :: "html_template \<Rightarrow> string \<Rightarrow> PackageInfo \<Rightarrow> bool" where
  "lists_record esc page pkg = sublist (index_item esc pkg) page"

text \<open>
  A path as a repository has them: relative, its elements separated by single slashes,
  none of them empty, \<^verbatim>\<open>.\<close> or \<^verbatim>\<open>..\<close>.
\<close>

definition plain_element :: "string \<Rightarrow> bool" where
  "plain_element e = (e \<noteq> '''' \<and> e \<noteq> ''.'' \<and> e \<noteq> ''..'')"

definition repository_path :: "string \<Rightarrow> bool" where
  "repository_path path = list_all plain_element (Split path (CHR ''/''))"

text \<open>
  White space as a text: a sequence of white space runes. A text is tight when no white
  space rune stands at its start or at its end.
\<close>

definition blank :: "string \<Rightarrow> bool" where
  "blank s = (\<exists>ws. set ws \<subseteq> set white_space \<and> s = concat ws)"

definition tight :: "string \<Rightarrow> bool" where
  "tight s = list_all (\<lambda>w. \<not> prefix w s \<and> \<not> suffix w s) white_space"

text \<open>
  A module line: white space, the token \<^verbatim>\<open>module \<close>, and after it a text that is not
  white space alone.
\<close>

definition module_line :: "string \<Rightarrow> bool" where
  "module_line line = (\<exists>a r. blank a \<and> \<not> blank r \<and> line = a @ ''module '' @ r)"

text \<open>Two states agree on everything but the messages logged.\<close>

definition same_output :: "State \<Rightarrow> State \<Rightarrow> bool" where
  "same_output s t =
     (packages s = packages t \<and> files s = files t \<and> rendered s = rendered t)"

subsection \<open>Example worlds\<close>

text \<open>
  The scenario of the specification: one Go repository \<^verbatim>\<open>foo\<close> with the files
  \<^verbatim>\<open>main.go\<close> and \<^verbatim>\<open>sub/util.go\<close> and the module \<^verbatim>\<open>pkg.blksails.net/foo\<close>; every write
  succeeds. No text of the scenario has a character that the escapers change.
\<close>

definition plain :: html_template where
  "plain = \<lparr>htmlescaper = (\<lambda>s. s), attrescaper = (\<lambda>s. s), urlescaper = (\<lambda>s. s)\<rparr>"

definition foo :: Repository where
  "foo = \<lparr>repo_Name = Some ''foo'', repo_Language = Some ''Go'',
           repo_HTMLURL = Some ''https://github.com/blksails/foo'',
           repo_Description = Some ''Foo''\<rparr>"

definition foo_listing :: "RepositoryContent list" where
  "foo_listing =
     [\<lparr>content_Type = Some ''file'', content_Name = Some ''main.go'',
       content_Path = Some ''main.go''\<rparr>,
      \<lparr>content_Type = Some ''file'', content_Name = Some ''util.go'',
       content_Path = Some ''sub/util.go''\<rparr>]"

definition foo_go_mod :: string where
  "foo_go_mod = ''module pkg.blksails.net/foo'' @ nl @ nl @ ''require example.org/x v1.0.0'' @ nl"

definition scenario :: World where
  "scenario =
     \<lparr>environ = [''GITHUB_TOKEN'' \<mapsto> ''token''],
      ListByOrg = Inr [foo],
      GetContents_root = (\<lambda>name. Inr foo_listing),
      GetContents_go_mod = (\<lambda>name. Inr (Some (Inr foo_go_mod))),
      page_io = (\<lambda>n. Inr Written),
      index_io = Written\<rparr>"

text \<open>A second repository, \<^verbatim>\<open>bar\<close>; in the worlds below it stands beside \<^verbatim>\<open>foo\<close>.\<close>

definition bar :: Repository where
  "bar = \<lparr>repo_Name = Some ''bar'', repo_Language = Some ''Go'',
           repo_HTMLURL = Some ''https://github.com/blksails/bar'',
           repo_Description = None\<rparr>"

text \<open>Both repositories declare the module \<^verbatim>\<open>pkg.blksails.net/foo\<close>.\<close>

definition same_module :: World where
  "same_module = scenario\<lparr>ListByOrg := Inr [foo, bar]\<rparr>"

text \<open>The repository \<^verbatim>\<open>bar\<close> has no \<^verbatim>\<open>go.mod\<close>.\<close>

definition missing_manifest :: World where
  "missing_manifest =
     scenario\<lparr>ListByOrg := Inr [bar, foo],
       GetContents_go_mod :=
         (\<lambda>name. if name = ''bar'' then Inl ''404 Not Found''
                  else Inr (Some (Inr foo_go_mod)))\<rparr>"

text \<open>In the repository \<^verbatim>\<open>bar\<close>, \<^verbatim>\<open>go.mod\<close> is a directory.\<close>

definition go_mod_directory :: World where
  "go_mod_directory =
     scenario\<lparr>ListByOrg := Inr [bar, foo],
       GetContents_go_mod :=
         (\<lambda>name. if name = ''bar'' then Inr None else Inr (Some (Inr foo_go_mod)))\<rparr>"

text \<open>The listing of the root directory fails.\<close>

definition no_listing :: World where
  "no_listing = scenario\<lparr>GetContents_root := (\<lambda>name. Inl ''502 Bad Gateway'')\<rparr>"

text \<open>
  The directories are made and no import page can be created in them; the index page,
  in \<^verbatim>\<open>public\<close> itself, is written.
\<close>

definition denied :: error where
  "denied = ''permission denied''"

definition no_import_pages :: World where
  "no_import_pages = scenario\<lparr>page_io := (\<lambda>n. Inr (CreateFails denied))\<rparr>"

text \<open>The listing has two Go files in the directory \<^verbatim>\<open>a\<close>, and other entries.\<close>

definition a_listing :: "RepositoryContent list" where
  "a_listing =
     [\<lparr>content_Type = Some ''file'', content_Name = Some ''README.md'',
       content_Path = Some ''README.md''\<rparr>,
      \<lparr>content_Type = Some ''dir'', content_Name = Some ''a'', content_Path = Some ''a''\<rparr>,
      \<lparr>content_Type = Some ''file'', content_Name = Some ''x.go'', content_Path = Some ''a/x.go''\<rparr>,
      \<lparr>content_Type = Some ''file'', content_Name = Some ''main.go'',
       content_Path = Some ''main.go''\<rparr>,
      \<lparr>content_Type = Some ''file'', content_Name = Some ''y.go'', content_Path = Some ''a/y.go''\<rparr>]"

definition two_sources :: World where
  "two_sources = scenario\<lparr>GetContents_root := (\<lambda>name. Inr a_listing)\<rparr>"

text \<open>A listing with a rooted path, and one with a path that leaves the repository.\<close>

definition rooted_listing :: "RepositoryContent list" where
  "rooted_listing =
     [\<lparr>content_Type = Some ''file'', content_Name = Some ''x.go'', content_Path = Some ''/x.go''\<rparr>]"

definition rooted_source :: World where
  "rooted_source = scenario\<lparr>GetContents_root := (\<lambda>name. Inr rooted_listing)\<rparr>"

definition outside_listing :: "RepositoryContent list" where
  "outside_listing =
     [\<lparr>content_Type = Some ''file'', content_Name = Some ''y.go'',
       content_Path = Some ''../foo/y.go''\<rparr>]"

definition outside_source :: World where
  "outside_source = scenario\<lparr>GetContents_root := (\<lambda>name. Inr outside_listing)\<rparr>"

text \<open>A manifest with a comment, an indented module line and Windows line ends.\<close>

definition indented_go_mod :: string where
  "indented_go_mod =
     ''// the module'' @ [CHR 0x0D, CHR 0x0A] @
     [CHR 0x09] @ '' module   pkg.blksails.net/foo '' @ [CHR 0x0D, CHR 0x0A] @
     ''module pkg.blksails.net/other'' @ [CHR 0x0A]"

section \<open>Properties\<close>

subsection \<open>Splitting and joining\<close>

lemma Split_nonempty: "Split s sep \<noteq> []"
  by (induction s) (auto split: list.splits)

lemma strings_Join_Cons: "es \<noteq> [] \<Longrightarrow> strings_Join (e # es) sep = e @ sep @ strings_Join es sep"
  by (cases es) auto

lemma strings_Join_Split: "strings_Join (Split s sep) [sep] = s"
proof (induction s)
  case Nil
  show ?case by simp
next
  case (Cons c cs)
  show ?case
  proof (cases "c = sep")
    case True
    with Cons show ?thesis by (simp add: strings_Join_Cons Split_nonempty)
  next
    case False
    obtain l ls where split: "Split cs sep = l # ls"
      using Split_nonempty [of cs sep] by (cases "Split cs sep") auto
    from Cons split have "strings_Join (l # ls) [sep] = cs" by simp
    then have "strings_Join ((c # l) # ls) [sep] = c # cs"
      by (cases ls) auto
    with False split show ?thesis by simp
  qed
qed

lemma Split_no_sep: "l \<in> set (Split s sep) \<Longrightarrow> sep \<notin> set l"
proof (induction s arbitrary: l)
  case Nil
  then show ?case by simp
next
  case (Cons c cs)
  show ?case
  proof (cases "c = sep")
    case True
    with Cons show ?thesis by auto
  next
    case False
    obtain k ks where split: "Split cs sep = k # ks"
      using Split_nonempty [of cs sep] by (cases "Split cs sep") auto
    with False Cons.prems have "l = c # k \<or> l \<in> set ks" by simp
    then show ?thesis
    proof
      assume "l = c # k"
      moreover have "sep \<notin> set k" using Cons.IH [of k] split by simp
      ultimately show ?thesis using False by simp
    next
      assume "l \<in> set ks"
      then show ?thesis using Cons.IH [of l] split by simp
    qed
  qed
qed

lemma Split_without_sep: "sep \<notin> set s \<Longrightarrow> Split s sep = [s]"
  by (induction s) auto

lemma Split_append_sep: "Split (a @ sep # b) sep = Split a sep @ Split b sep"
proof (induction a)
  case Nil
  show ?case by simp
next
  case (Cons c a)
  obtain l ls where "Split a sep = l # ls"
    using Split_nonempty [of a sep] by (cases "Split a sep") auto
  with Cons show ?case by simp
qed

lemma Split_strings_Join:
  "es \<noteq> [] \<Longrightarrow> \<forall>e \<in> set es. sep \<notin> set e \<Longrightarrow> Split (strings_Join es [sep]) sep = es"
proof (induction es rule: list_nonempty_induct)
  case (single e)
  then show ?case by (simp add: Split_without_sep)
next
  case (cons e es)
  then show ?case
    by (simp add: strings_Join_Cons Split_append_sep Split_without_sep)
qed

subsection \<open>Cleaning paths\<close>

text \<open>
  The stack of \<open>filepath_Clean\<close> is always a run of \<^verbatim>\<open>..\<close> elements (none in a rooted
  path) followed by plain elements, and reading such a stack again gives it back. So
  joining a directory of a repository to a path never gives that path back.
\<close>

lemma foldl_clean_plain:
  "list_all plain_element ps \<Longrightarrow> foldl (clean_elem rooted) out ps = out @ ps"
  by (induction ps arbitrary: out) (simp_all add: clean_elem_def plain_element_def)

lemma foldl_clean_dotdot:
  "foldl (clean_elem False) (replicate j ''..'') (replicate k ''..'') = replicate (j + k) ''..''"
proof (induction k arbitrary: j)
  case 0
  show ?case by simp
next
  case (Suc k)
  have "clean_elem False (replicate j ''..'') ''..'' = replicate (Suc j) ''..''"
    by (cases j) (simp_all add: clean_elem_def replicate_append_same)
  then show ?case
    using Suc [of "Suc j"] by simp
qed

lemma foldl_clean_stack:
  assumes "list_all plain_element ps" and "rooted \<longrightarrow> k = 0"
  shows "foldl (clean_elem rooted) [] (replicate k ''..'' @ ps) = replicate k ''..'' @ ps"
proof (cases rooted)
  case True
  with assms show ?thesis by (simp add: foldl_clean_plain)
next
  case False
  then show ?thesis
    using foldl_clean_dotdot [of 0 k] assms(1) by (simp add: foldl_clean_plain)
qed

lemma clean_elem_stack:
  assumes "out = replicate k ''..'' @ ps" and "list_all plain_element ps" and "rooted \<longrightarrow> k = 0"
  shows "\<exists>k' ps'. clean_elem rooted out e = replicate k' ''..'' @ ps' \<and>
           list_all plain_element ps' \<and> (rooted \<longrightarrow> k' = 0)"
proof -
  consider "e = '''' \<or> e = ''.''" | "e = ''..''" "ps \<noteq> []" | "e = ''..''" "ps = []"
    | "plain_element e"
    by (auto simp: plain_element_def)
  then show ?thesis
  proof cases
    case 1
    with assms show ?thesis by (auto simp: clean_elem_def)
  next
    case 2
    from 2(2) assms(2) have "last ps \<noteq> ''..''"
      by (cases ps rule: rev_cases) (auto simp: plain_element_def)
    with 2 assms have "clean_elem rooted out e = replicate k ''..'' @ butlast ps"
      by (simp add: clean_elem_def butlast_append)
    moreover have "list_all plain_element (butlast ps)"
      using assms(2) by (auto simp: list_all_iff dest: in_set_butlastD)
    ultimately show ?thesis using assms(3) by blast
  next
    case 3
    show ?thesis
    proof (cases rooted)
      case True
      with 3 assms show ?thesis
        by (auto simp: clean_elem_def)
    next
      case False
      with 3 assms have "clean_elem rooted out e = replicate (Suc k) ''..'' @ []"
        by (cases k) (simp_all add: clean_elem_def replicate_append_same)
      with False show ?thesis
        by (intro exI [of _ "Suc k"] exI [of _ "[]"]) simp
    qed
  next
    case 4
    with assms have "clean_elem rooted out e = replicate k ''..'' @ (ps @ [e])"
      by (simp add: clean_elem_def plain_element_def)
    moreover have "list_all plain_element (ps @ [e])"
      using 4 assms(2) by simp
    ultimately show ?thesis using assms(3) by blast
  qed
qed

lemma foldl_clean_elem_stack:
  assumes "out = replicate k ''..'' @ ps" and "list_all plain_element ps" and "rooted \<longrightarrow> k = 0"
  shows "\<exists>k' ps'. foldl (clean_elem rooted) out es = replicate k' ''..'' @ ps' \<and>
           list_all plain_element ps' \<and> (rooted \<longrightarrow> k' = 0)"
  using assms
proof (induction es arbitrary: out k ps)
  case Nil
  then show ?case by auto
next
  case (Cons e es)
  from clean_elem_stack [OF Cons.prems, of e]
  obtain k' ps' where "clean_elem rooted out e = replicate k' ''..'' @ ps'"
      "list_all plain_element ps'" "rooted \<longrightarrow> k' = 0"
    by blast
  from Cons.IH [OF this] show ?case by simp
qed

lemma set_clean_elem: "set (clean_elem rooted out e) \<subseteq> insert e (set out)"
  by (auto simp: clean_elem_def dest: in_set_butlastD)

lemma set_foldl_clean_elem: "set (foldl (clean_elem rooted) out es) \<subseteq> set out \<union> set es"
proof (induction es arbitrary: out)
  case Nil
  show ?case by simp
next
  case (Cons e es)
  show ?case
    using Cons.IH [of "clean_elem rooted out e"] set_clean_elem [of rooted out e] by auto
qed

lemma filepath_Clean_stack:
  assumes "path \<noteq> ''''" and "foldl (clean_elem (hd path = CHR ''/'')) [] (Split path (CHR ''/'')) \<noteq> []"
  shows "filepath_Clean path =
     (if hd path = CHR ''/'' then ''/'' else '''') @
     strings_Join (foldl (clean_elem (hd path = CHR ''/'')) [] (Split path (CHR ''/''))) ''/''"
proof (cases "hd path = CHR ''/''")
  case True
  with assms show ?thesis by (simp add: filepath_Clean_def Let_def)
next
  case False
  with assms show ?thesis by (simp add: filepath_Clean_def Let_def)
qed

lemma filepath_Join_not_module:
  assumes "m \<noteq> ''''" and "repository_path a"
  shows "filepath_Join [m, a] \<noteq> m"
proof
  let ?r = "hd m = CHR ''/''"
  let ?out = "foldl (clean_elem ?r) [] (Split m (CHR ''/''))"
  let ?os = "?out @ Split a (CHR ''/'')"
  assume eq: "filepath_Join [m, a] = m"
  have plain_a: "list_all plain_element (Split a (CHR ''/''))"
    using assms(2) by (simp add: repository_path_def)
  have os: "foldl (clean_elem ?r) [] (Split (m @ ''/'' @ a) (CHR ''/'')) = ?os"
    by (simp add: Split_append_sep foldl_clean_plain [OF plain_a])
  have ne: "?os \<noteq> []"
    by (simp add: Split_nonempty)
  have hd: "hd (m @ ''/'' @ a) = hd m"
    using assms(1) by simp
  have "filepath_Join [m, a] = filepath_Clean (m @ ''/'' @ a)"
    using assms(1) by simp
  also have "\<dots> = (if ?r then ''/'' else '''') @ strings_Join ?os ''/''"
    using filepath_Clean_stack [of "m @ ''/'' @ a"] os ne hd by simp
  finally have m: "m = (if ?r then ''/'' else '''') @ strings_Join ?os ''/''"
    using eq by simp
  have free: "\<forall>e \<in> set ?os. CHR ''/'' \<notin> set e"
  proof
    fix e assume "e \<in> set ?os"
    then have "e \<in> set (Split m (CHR ''/'')) \<or> e \<in> set (Split a (CHR ''/''))"
      using set_foldl_clean_elem [of ?r "[]" "Split m (CHR ''/'')"] by auto
    then show "CHR ''/'' \<notin> set e"
      by (auto dest: Split_no_sep)
  qed
  have split_os: "Split (strings_Join ?os ''/'') (CHR ''/'') = ?os"
    by (rule Split_strings_Join [OF ne free])
  obtain k ps where shape: "?out = replicate k ''..'' @ ps" "list_all plain_element ps"
      "?r \<longrightarrow> k = 0"
    using foldl_clean_elem_stack [of "[]" 0 "[]" ?r "Split m (CHR ''/'')"] by auto
  have id: "foldl (clean_elem ?r) [] ?os = ?os"
    using foldl_clean_stack [of "ps @ Split a (CHR ''/'')" ?r k] shape plain_a by simp
  have "foldl (clean_elem ?r) [] (Split m (CHR ''/'')) = foldl (clean_elem ?r) [] ?os"
  proof (cases ?r)
    case True
    with m have "m = CHR ''/'' # strings_Join ?os ''/''"
      by simp
    then have "Split m (CHR ''/'') = [] # Split (strings_Join ?os ''/'') (CHR ''/'')"
      using Split.simps(2) [of "CHR ''/''" "strings_Join ?os ''/''" "CHR ''/''"] by simp
    then have "Split m (CHR ''/'') = [] # ?os"
      unfolding split_os .
    then have "foldl (clean_elem ?r) [] (Split m (CHR ''/'')) = foldl (clean_elem ?r) [] ([] # ?os)"
      by (rule arg_cong)
    also have "\<dots> = foldl (clean_elem ?r) [] ?os"
      unfolding foldl_Cons by (simp only: clean_elem_def if_True simp_thms)
    finally show ?thesis .
  next
    case False
    with m have "m = strings_Join ?os ''/''"
      by simp
    then have "Split m (CHR ''/'') = Split (strings_Join ?os ''/'') (CHR ''/'')"
      by (rule arg_cong)
    then have "Split m (CHR ''/'') = ?os"
      unfolding split_os .
    then show ?thesis
      by (rule arg_cong)
  qed
  with id have "?out = ?out @ Split a (CHR ''/'')"
    by simp
  then show False
    by (simp add: Split_nonempty)
qed

lemma filepath_Dir_no_slash: "CHR ''/'' \<notin> set path \<Longrightarrow> filepath_Dir path = ''.''"
proof -
  assume "CHR ''/'' \<notin> set path"
  then have "dropWhile (\<lambda>c. c \<noteq> CHR ''/'') (rev path) = []"
    by auto
  then show ?thesis
    by (simp add: filepath_Dir_def filepath_Clean_def)
qed

lemma filepath_Dir_repository_path:
  assumes "repository_path path" and "CHR ''/'' \<in> set path"
  shows "repository_path (filepath_Dir path)"
proof -
  from assms(2) obtain a b where path: "path = a @ CHR ''/'' # b" and b: "CHR ''/'' \<notin> set b"
    by (auto dest: split_list_last)
  have "dropWhile (\<lambda>c. c \<noteq> CHR ''/'') (rev b @ CHR ''/'' # rev a) =
      dropWhile (\<lambda>c. c \<noteq> CHR ''/'') (CHR ''/'' # rev a)"
    by (rule dropWhile_append2) (use b in auto)
  then have "dropWhile (\<lambda>c. c \<noteq> CHR ''/'') (rev b @ CHR ''/'' # rev a) = CHR ''/'' # rev a"
    by simp
  then have dir: "filepath_Dir path = filepath_Clean (a @ ''/'')"
    by (simp add: filepath_Dir_def path)
  have plain: "list_all plain_element (Split a (CHR ''/''))"
    using assms(1) by (simp add: repository_path_def path Split_append_sep)
  have a: "a \<noteq> ''''" "hd a \<noteq> CHR ''/''"
  proof -
    show "a \<noteq> ''''"
      using plain by (auto simp: plain_element_def)
    show "hd a \<noteq> CHR ''/''"
      using plain by (cases a) (auto simp: plain_element_def)
  qed
  have "foldl (clean_elem False) [] (Split (a @ ''/'') (CHR ''/'')) = Split a (CHR ''/'')"
    using Split_append_sep [of a "CHR ''/''" "[]"] foldl_clean_plain [OF plain, of False "[]"]
    by (simp add: clean_elem_def)
  then have "filepath_Clean (a @ ''/'') = strings_Join (Split a (CHR ''/'')) ''/''"
    using a by (simp add: filepath_Clean_def Let_def Split_nonempty)
  also have "\<dots> = a"
    by (rule strings_Join_Split)
  finally show ?thesis
    using plain by (simp add: dir repository_path_def)
qed

lemma sub_record_not_root:
  assumes "m \<noteq> ''''" and "repository_path (content_GetPath content)"
    and "subdirectory_source content"
  shows "ImportPath (sub_record repo m content) \<noteq> m"
proof -
  from assms(3) have "filepath_Dir (content_GetPath content) \<noteq> ''.''"
    by (simp add: subdirectory_source_def)
  then have "CHR ''/'' \<in> set (content_GetPath content)"
    using filepath_Dir_no_slash by blast
  then have "repository_path (filepath_Dir (content_GetPath content))"
    by (rule filepath_Dir_repository_path [OF assms(2)])
  then show ?thesis
    unfolding sub_record_def using filepath_Join_not_module [OF assms(1)] by simp
qed

lemma sub_import_paths:
  "card (set (map ImportPath (map (sub_record repo m) (filter subdirectory_source contents))))
     \<le> card ((\<lambda>content. filepath_Dir (content_GetPath content)) `
              {content \<in> set contents. subdirectory_source content})"
proof -
  let ?dir = "\<lambda>content. filepath_Dir (content_GetPath content)"
  have "set (map ImportPath (map (sub_record repo m) (filter subdirectory_source contents)))
      = (\<lambda>d. filepath_Join [m, d]) ` ?dir ` {c \<in> set contents. subdirectory_source c}"
    by (simp add: sub_record_def image_image del: filepath_Join.simps)
  also have "card \<dots> \<le> card (?dir ` {c \<in> set contents. subdirectory_source c})"
    by (rule card_image_le) simp
  finally show ?thesis .
qed

subsection \<open>The steps of a run\<close>

lemma generateHTML_packages [simp]: "packages (snd (generateHTML esc w pkg s)) = packages s"
  by (simp add: generateHTML_def Let_def split: sum.splits write_outcome.splits)

lemma generateHTML_rendered [simp]:
  "rendered (snd (generateHTML esc w pkg s)) = rendered s @ [pkg]"
  by (simp add: generateHTML_def Let_def split: sum.splits write_outcome.splits)

lemma generateHTML_files_logged [simp]:
  "logged (snd (generateHTML esc w pkg s)) = logged s"
  by (simp add: generateHTML_def Let_def split: sum.splits write_outcome.splits)

lemma generateHTML_written:
  "fst (generateHTML esc w pkg s) = None \<Longrightarrow>
   files (snd (generateHTML esc w pkg s))
     (filepath_Join [filepath_Join [''public'', TrimPrefix (ImportPath pkg) (baseDomain @ ''/'')],
        ''index.html'']) = Some (import_page esc pkg)"
  by (simp add: generateHTML_def Let_def split: sum.splits write_outcome.splits)

lemma generateIndexHTML_packages [simp]:
  "packages (snd (generateIndexHTML esc w pkgs s)) = packages s"
  by (simp add: generateIndexHTML_def split: write_outcome.splits)

lemma generateIndexHTML_rendered [simp]:
  "rendered (snd (generateIndexHTML esc w pkgs s)) = rendered s"
  by (simp add: generateIndexHTML_def split: write_outcome.splits)

lemma generateIndexHTML_written:
  "fst (generateIndexHTML esc w pkgs s) = None \<Longrightarrow>
   files (snd (generateIndexHTML esc w pkgs s)) ''public/index.html'' = Some (index_page esc pkgs)"
  by (simp add: generateIndexHTML_def split: write_outcome.splits)

lemma log_error_packages [simp]: "packages (log_error msg r) = packages (snd r)"
  by (cases r) (simp add: log_error_def split: option.splits)

lemma log_error_rendered [simp]: "rendered (log_error msg r) = rendered (snd r)"
  by (cases r) (simp add: log_error_def split: option.splits)

lemma log_error_files [simp]: "files (log_error msg r) = files (snd r)"
  by (cases r) (simp add: log_error_def split: option.splits)

lemma log_error_logged:
  "logged (log_error msg r) =
     logged (snd r) @ (case fst r of None \<Rightarrow> [] | Some err \<Rightarrow> [msg @ err])"
  by (cases r) (simp add: log_error_def split: option.splits)

lemma subdirectories_packages [simp]:
  "packages (subdirectories esc w m repo contents s) = packages s"
  by (induction contents arbitrary: s) (simp_all add: Let_def)

lemma subdirectories_rendered:
  "rendered (subdirectories esc w m repo contents s) =
     rendered s @ map (sub_record repo m) (filter subdirectory_source contents)"
  by (induction contents arbitrary: s)
     (simp_all add: Let_def sub_record_def subdirectory_source_def)

lemma subdirectories_logged_prefix:
  "prefix (logged s) (logged (subdirectories esc w m repo contents s))"
proof (induction contents arbitrary: s)
  case Nil
  show ?case by simp
next
  case (Cons content contents)
  show ?case
  proof (cases "subdirectory_source content")
    case False
    then show ?thesis
      using Cons.IH [of s] by (auto simp: subdirectory_source_def Let_def)
  next
    case True
    let ?sub = "sub_record repo m content"
    let ?msg = "''Error generating HTML for '' @ ImportPath ?sub @ '': ''"
    let ?t = "log_error ?msg (generateHTML esc w ?sub s)"
    from True have step: "subdirectories esc w m repo (content # contents) s =
        subdirectories esc w m repo contents ?t"
      by (simp add: subdirectory_source_def sub_record_def Let_def)
    have "prefix (logged s) (logged ?t)"
      by (simp add: log_error_logged)
    also have "prefix (logged ?t) (logged (subdirectories esc w m repo contents ?t))"
      by (rule Cons.IH)
    finally show ?thesis
      unfolding step .
  qed
qed

lemma qualifying_iff:
  "qualifying w repo \<longleftrightarrow>
     GetLanguage repo = ''Go'' \<and>
     (\<exists>contents. GetContents_root w (GetName repo) = Inr contents) \<and>
     (\<exists>fileContent. GetContents_go_mod w (GetName repo) = Inr (Some (Inr fileContent)) \<and>
        HasPrefix (parseModuleName fileContent) basePackage)"
  by (cases "GetContents_root w (GetName repo)")
     (auto simp: qualifying_def module_identifier_def split: sum.splits option.splits)

lemma panicking_iff:
  "panicking w repo \<longleftrightarrow>
     GetLanguage repo = ''Go'' \<and>
     (\<exists>contents. GetContents_root w (GetName repo) = Inr contents) \<and>
     GetContents_go_mod w (GetName repo) = Inr None"
  by (cases "GetContents_root w (GetName repo)") (auto simp: panicking_def)

lemma panicking_not_qualifying: "panicking w repo \<Longrightarrow> \<not> qualifying w repo"
  by (auto simp: panicking_iff qualifying_iff)

lemma repository_qualifying:
  assumes "GetLanguage repo = ''Go''"
    and "GetContents_root w (GetName repo) = Inr contents"
    and "GetContents_go_mod w (GetName repo) = Inr (Some (Inr fileContent))"
    and "HasPrefix (parseModuleName fileContent) basePackage"
  shows "repository esc w repo s =
     Inr (subdirectories esc w (parseModuleName fileContent) repo contents
       (log_error (''Error generating HTML for '' @ parseModuleName fileContent @ '': '')
          (generateHTML esc w (root_record repo (parseModuleName fileContent))
             (s\<lparr>packages := packages s @ [root_record repo (parseModuleName fileContent)]\<rparr>))))"
  using assms by (simp add: repository_def Let_def root_record_def)

lemma repository_panicking:
  "panicking w repo \<Longrightarrow> repository esc w repo s = Inl (Panic nil_dereference)"
  by (auto simp: panicking_iff repository_def)

lemma repository_skipped:
  assumes "\<not> qualifying w repo" and "\<not> panicking w repo"
  shows "\<exists>s'. repository esc w repo s = Inr s' \<and> same_output s' s"
  using assms
  by (cases "GetContents_root w (GetName repo)")
     (auto simp: repository_def qualifying_iff panicking_iff Let_def same_output_def
        split: sum.splits option.splits)

lemma repository_aborts_iff: "isl (repository esc w repo s) \<longleftrightarrow> panicking w repo"
proof (cases "panicking w repo")
  case True
  then show ?thesis by (simp add: repository_panicking)
next
  case False
  show ?thesis
  proof (cases "qualifying w repo")
    case True
    then obtain contents fileContent where "GetLanguage repo = ''Go''"
        "GetContents_root w (GetName repo) = Inr contents"
        "GetContents_go_mod w (GetName repo) = Inr (Some (Inr fileContent))"
        "HasPrefix (parseModuleName fileContent) basePackage"
      by (auto simp: qualifying_iff)
    from repository_qualifying [OF this] False show ?thesis by simp
  next
    case nq: False
    from repository_skipped [OF nq False, of esc s] False show ?thesis by auto
  qed
qed

lemma repository_packages:
  "repository esc w repo s = Inr s' \<Longrightarrow> packages s' = packages s @ registered w repo"
  by (cases "GetContents_root w (GetName repo)")
     (auto simp: repository_def registered_def qualifying_def module_identifier_def
        root_record_def Let_def split: sum.splits option.splits if_splits)

lemma repository_rendered:
  "repository esc w repo s = Inr s' \<Longrightarrow> rendered s' = rendered s @ emitted w repo"
  by (cases "GetContents_root w (GetName repo)")
     (auto simp: repository_def emitted_def expand_def listing_def qualifying_def
        module_identifier_def root_record_def Let_def subdirectories_rendered
        split: sum.splits option.splits if_splits)

lemma repositories_packages:
  "repositories esc w repos s = Inr s' \<Longrightarrow>
   packages s' = packages s @ concat (map (registered w) repos)"
  by (induction repos arbitrary: s) (auto simp: repository_packages split: sum.splits)

lemma repositories_rendered:
  "repositories esc w repos s = Inr s' \<Longrightarrow>
   rendered s' = rendered s @ concat (map (emitted w) repos)"
  by (induction repos arbitrary: s) (auto simp: repository_rendered split: sum.splits)

lemma repositories_append:
  "repositories esc w (xs @ ys) s =
     (case repositories esc w xs s of Inl a \<Rightarrow> Inl a | Inr s' \<Rightarrow> repositories esc w ys s')"
  by (induction xs arbitrary: s) (simp_all split: sum.splits)

lemma repositories_aborts_iff:
  "isl (repositories esc w repos s) \<longleftrightarrow> (\<exists>repo \<in> set repos. panicking w repo)"
proof (induction repos arbitrary: s)
  case Nil
  show ?case by simp
next
  case (Cons repo repos)
  show ?case
  proof (cases "repository esc w repo s")
    case (Inl a)
    then have "panicking w repo"
      using repository_aborts_iff [of esc w repo s] by simp
    with Inl show ?thesis by simp
  next
    case (Inr s')
    then have "\<not> panicking w repo"
      using repository_aborts_iff [of esc w repo s] by simp
    with Inr Cons.IH [of s'] show ?thesis by simp
  qed
qed

lemma repositories_panic:
  "repositories esc w repos s = Inl a \<Longrightarrow> a = Panic nil_dereference"
proof (induction repos arbitrary: s)
  case Nil
  then show ?case by simp
next
  case (Cons repo repos)
  show ?case
  proof (cases "repository esc w repo s")
    case (Inl b)
    then have "panicking w repo"
      using repository_aborts_iff [of esc w repo s] by simp
    with Inl Cons.prems show ?thesis
      by (simp add: repository_panicking)
  next
    case (Inr s')
    with Cons show ?thesis by simp
  qed
qed

lemma main_cases:
  "main esc w =
     (if Getenv w ''GITHUB_TOKEN'' = ''''
      then Inl (Fatal ''GITHUB_TOKEN environment variable is required'')
      else case ListByOrg w of
        Inl err \<Rightarrow> Inl (Fatal (''Error listing repositories: '' @ err))
      | Inr repos \<Rightarrow>
          (case repositories esc w repos init of
             Inl a \<Rightarrow> Inl a
           | Inr s \<Rightarrow>
               Inr (log_error ''Error generating index HTML: ''
                      (generateIndexHTML esc w (packages s) s))))"
  by (simp add: main_def Let_def)

lemma main_completes:
  assumes "main esc w = Inr final" and "ListByOrg w = Inr repos"
  shows "\<exists>s. repositories esc w repos init = Inr s \<and>
     final = log_error ''Error generating index HTML: '' (generateIndexHTML esc w (packages s) s)"
  using assms by (auto simp: main_cases split: if_splits sum.splits)

lemma main_packages:
  assumes "main esc w = Inr final" and "ListByOrg w = Inr repos"
  shows "packages final = concat (map (registered w) repos)"
    and "rendered final = concat (map (emitted w) repos)"
    and "index_io w = Written \<Longrightarrow>
      files final ''public/index.html'' = Some (index_page esc (packages final))"
proof -
  from main_completes [OF assms] obtain s where s: "repositories esc w repos init = Inr s"
    and final: "final =
      log_error ''Error generating index HTML: '' (generateIndexHTML esc w (packages s) s)"
    by blast
  show "packages final = concat (map (registered w) repos)"
    using repositories_packages [OF s] by (simp add: final init_def)
  show "rendered final = concat (map (emitted w) repos)"
    using repositories_rendered [OF s] by (simp add: final init_def)
  show "files final ''public/index.html'' = Some (index_page esc (packages final))"
    if "index_io w = Written"
    using that by (simp add: final generateIndexHTML_def)
qed

lemma qualifying_records:
  assumes "qualifying w repo"
  shows "\<exists>m. module_identifier w repo = Some m \<and> HasPrefix m basePackage \<and>
     registered w repo = [root_record repo m] \<and>
     emitted w repo =
       root_record repo m # map (sub_record repo m) (filter subdirectory_source (listing w repo))"
  using assms
  by (auto simp: qualifying_def registered_def emitted_def expand_def split: option.splits)

lemma index_page_lists: "pkg \<in> set pkgs \<Longrightarrow> lists_record esc (index_page esc pkgs) pkg"
proof -
  assume "pkg \<in> set pkgs"
  then obtain before after where "pkgs = before @ pkg # after"
    by (auto dest: split_list)
  then have "index_page esc pkgs =
      (index_head @ concat (map (index_item esc) before)) @ index_item esc pkg @
      (concat (map (index_item esc) after) @ index_tail)"
    by (simp add: index_page_def)
  then show ?thesis
    unfolding lists_record_def sublist_def by blast
qed

text \<open>The messages logged so far have no influence on what a step does.\<close>

lemma generateHTML_same:
  assumes "same_output s t"
  shows "fst (generateHTML esc w pkg s) = fst (generateHTML esc w pkg t)"
    and "same_output (snd (generateHTML esc w pkg s)) (snd (generateHTML esc w pkg t))"
  using assms
  by (simp_all add: same_output_def generateHTML_def Let_def split: sum.splits write_outcome.splits)

lemma log_error_same:
  "same_output (snd r) (snd r') \<Longrightarrow> same_output (log_error msg r) (log_error msg' r')"
  by (simp add: same_output_def)

lemma subdirectories_same:
  "same_output s t \<Longrightarrow>
   same_output (subdirectories esc w m repo contents s) (subdirectories esc w m repo contents t)"
proof (induction contents arbitrary: s t)
  case Nil
  then show ?case by simp
next
  case (Cons content contents)
  show ?case
  proof (cases "subdirectory_source content")
    case False
    then show ?thesis
      using Cons.IH [OF Cons.prems] by (auto simp: subdirectory_source_def Let_def)
  next
    case True
    let ?sub = "sub_record repo m content"
    let ?msg = "''Error generating HTML for '' @ ImportPath ?sub @ '': ''"
    from True have step: "\<And>u. subdirectories esc w m repo (content # contents) u =
        subdirectories esc w m repo contents (log_error ?msg (generateHTML esc w ?sub u))"
      by (simp add: subdirectory_source_def sub_record_def Let_def)
    have "same_output (log_error ?msg (generateHTML esc w ?sub s))
        (log_error ?msg (generateHTML esc w ?sub t))"
      by (intro log_error_same generateHTML_same Cons.prems)
    then show ?thesis
      unfolding step by (rule Cons.IH)
  qed
qed

lemma same_output_trans: "same_output s t \<Longrightarrow> same_output t u \<Longrightarrow> same_output s u"
  by (simp add: same_output_def)

lemma same_output_sym: "same_output s t \<Longrightarrow> same_output t s"
  by (simp add: same_output_def)

lemma repository_same:
  assumes "same_output s t"
  shows "rel_sum (=) same_output (repository esc w repo s) (repository esc w repo t)"
proof (cases "panicking w repo")
  case True
  then show ?thesis by (simp add: repository_panicking)
next
  case np: False
  show ?thesis
  proof (cases "qualifying w repo")
    case False
    from repository_skipped [OF False np] obtain s' t'
      where "repository esc w repo s = Inr s'" "same_output s' s"
        and "repository esc w repo t = Inr t'" "same_output t' t"
      by metis
    with assms show ?thesis
      by (simp add: same_output_def)
  next
    case True
    then obtain contents fileContent where q: "GetLanguage repo = ''Go''"
        "GetContents_root w (GetName repo) = Inr contents"
        "GetContents_go_mod w (GetName repo) = Inr (Some (Inr fileContent))"
        "HasPrefix (parseModuleName fileContent) basePackage"
      by (auto simp: qualifying_iff)
    let ?root = "root_record repo (parseModuleName fileContent)"
    from assms have "same_output (s\<lparr>packages := packages s @ [?root]\<rparr>)
        (t\<lparr>packages := packages t @ [?root]\<rparr>)"
      by (simp add: same_output_def)
    then show ?thesis
      unfolding repository_qualifying [OF q] rel_sum_simps
      by (intro subdirectories_same log_error_same generateHTML_same)
  qed
qed

lemma repositories_same:
  "same_output s t \<Longrightarrow>
   rel_sum (=) same_output (repositories esc w repos s) (repositories esc w repos t)"
proof (induction repos arbitrary: s t)
  case Nil
  then show ?case by simp
next
  case (Cons repo repos)
  from repository_same [OF Cons.prems, of esc w repo] show ?case
    by (cases "repository esc w repo s"; cases "repository esc w repo t")
       (auto intro: Cons.IH)
qed

lemma repositories_without:
  assumes "\<not> qualifying w repo" and "\<not> panicking w repo"
  shows "rel_sum (=) same_output
     (repositories esc w (xs @ repo # ys) s) (repositories esc w (xs @ ys) s)"
proof (cases "repositories esc w xs s")
  case (Inl a)
  then show ?thesis by (simp add: repositories_append)
next
  case (Inr t)
  from repository_skipped [OF assms, of esc t] obtain t'
    where "repository esc w repo t = Inr t'" "same_output t' t"
    by blast
  with Inr repositories_same [of t' t esc w ys] show ?thesis
    by (simp add: repositories_append)
qed

lemma generateIndexHTML_same:
  assumes "same_output s t"
  shows "same_output (log_error msg (generateIndexHTML esc w (packages s) s))
     (log_error msg (generateIndexHTML esc w (packages t) t))"
  using assms
  by (simp add: same_output_def generateIndexHTML_def split: write_outcome.splits)

text \<open>The loop over the repositories does not read the listing of the organisation.\<close>

lemma generateHTML_ListByOrg [simp]:
  "generateHTML esc (w\<lparr>ListByOrg := l\<rparr>) pkg s = generateHTML esc w pkg s"
  by (simp add: generateHTML_def)

lemma subdirectories_ListByOrg [simp]:
  "subdirectories esc (w\<lparr>ListByOrg := l\<rparr>) m repo contents s =
   subdirectories esc w m repo contents s"
  by (induction contents arbitrary: s) (simp_all add: Let_def)

lemma repository_ListByOrg [simp]:
  "repository esc (w\<lparr>ListByOrg := l\<rparr>) repo s = repository esc w repo s"
  by (simp add: repository_def Let_def split: sum.splits option.splits)

lemma repositories_ListByOrg [simp]:
  "repositories esc (w\<lparr>ListByOrg := l\<rparr>) repos s = repositories esc w repos s"
  by (induction repos arbitrary: s) (simp_all split: sum.splits)

lemma generateIndexHTML_ListByOrg [simp]:
  "generateIndexHTML esc (w\<lparr>ListByOrg := l\<rparr>) pkgs s = generateIndexHTML esc w pkgs s"
  by (simp add: generateIndexHTML_def)

text \<open>
  A repository whose \<^verbatim>\<open>go.mod\<close> is answered with an error, does not decode or declares
  another prefix is skipped: the run ends as the run without it does.
\<close>

lemma main_without_skipped:
  assumes "ListByOrg w = Inr (before @ repo # after)"
    and "\<not> qualifying w repo" and "\<not> panicking w repo"
  shows "rel_sum (=) same_output (main esc w) (main esc (w\<lparr>ListByOrg := Inr (before @ after)\<rparr>))"
proof (cases "Getenv w ''GITHUB_TOKEN'' = ''''")
  case True
  then show ?thesis by (simp add: main_cases Getenv_def)
next
  case False
  let ?w' = "w\<lparr>ListByOrg := Inr (before @ after)\<rparr>"
  from False have token': "Getenv ?w' ''GITHUB_TOKEN'' \<noteq> ''''"
    by (simp add: Getenv_def)
  have "rel_sum (=) same_output (repositories esc w (before @ repo # after) init)
      (repositories esc w (before @ after) init)"
    by (rule repositories_without [OF assms(2,3)])
  then show ?thesis
    unfolding main_cases [of esc w] main_cases [of esc ?w']
    using False token' assms(1)
    by (cases "repositories esc w (before @ repo # after) init";
        cases "repositories esc w (before @ after) init")
       (auto intro: generateIndexHTML_same)
qed

subsection \<open>Trimming white space\<close>

lemma HasPrefix_prefix: "HasPrefix s w \<longleftrightarrow> prefix w s"
proof
  assume "HasPrefix s w"
  then have "take (length w) s = w" by (simp add: HasPrefix_def)
  then show "prefix w s" by (metis take_is_prefix)
next
  assume "prefix w s"
  then show "HasPrefix s w" by (auto simp: prefix_def HasPrefix_def)
qed

lemma HasSuffix_suffix: "HasSuffix s w \<longleftrightarrow> suffix w s"
proof
  assume "HasSuffix s w"
  then have "drop (length s - length w) s = w" by (simp add: HasSuffix_def)
  then show "suffix w s" by (metis suffix_drop)
next
  assume "suffix w s"
  then show "HasSuffix s w" by (auto simp: suffix_def HasSuffix_def)
qed

lemma suffix_append_cases:
  "suffix u (p @ x) \<longleftrightarrow> suffix u x \<or> (\<exists>v. suffix v p \<and> u = v @ x)"
proof
  assume "suffix u (p @ x)"
  then have "prefix (rev u) (rev x @ rev p)"
    by (simp add: suffix_to_prefix)
  then consider "prefix (rev u) (rev x)" | us where "rev u = rev x @ us" "prefix us (rev p)"
    by (auto simp: prefix_append)
  then show "suffix u x \<or> (\<exists>v. suffix v p \<and> u = v @ x)"
  proof cases
    case 1
    then show ?thesis by (simp add: suffix_to_prefix)
  next
    case 2
    from 2(1) have "u = rev us @ x"
      by (metis rev_append rev_rev_ident)
    moreover from 2(2) have "suffix (rev us) p"
      by (simp add: suffix_to_prefix)
    ultimately show ?thesis by blast
  qed
next
  assume "suffix u x \<or> (\<exists>v. suffix v p \<and> u = v @ x)"
  then show "suffix u (p @ x)"
    by (auto simp: suffix_def)
qed

text \<open>
  The encodings of the white space runes, by evaluation of the list: none is empty, none
  is a prefix or a suffix of another, none starts with a letter of \<^verbatim>\<open>module\<close> or ends
  the word, and no piece of one, cut inside it, ends the token \<^verbatim>\<open>module \<close> or fits the
  end of another.
\<close>

lemma white_space_code:
  "list_all (\<lambda>w. w \<noteq> [] \<and>
     list_all (\<lambda>w'. (prefix w' w \<or> suffix w' w) \<longrightarrow> w' = w) white_space) white_space"
  by code_simp

lemma white_space_module_code:
  "list_all (\<lambda>w. \<not> prefix w ''module '' \<and> \<not> prefix ''m'' w \<and> \<not> suffix w ''module'') white_space"
  by code_simp

lemma white_space_pieces_code:
  "list_all (\<lambda>w. list_all (\<lambda>u. u = [] \<or> u = w \<or>
       (\<not> suffix u ''module '' \<and>
        list_all (\<lambda>e. \<not> suffix u e \<and> \<not> suffix e u) white_space))
     (prefixes w)) white_space"
  by code_simp

lemma find_SomeD: "find P xs = Some x \<Longrightarrow> x \<in> set xs \<and> P x"
  by (induction xs) (auto split: if_splits)

lemma white_space_nonempty: "w \<in> set white_space \<Longrightarrow> w \<noteq> []"
  using white_space_code by (auto simp: list_all_iff)

lemma white_space_prefix_free:
  assumes "w \<in> set white_space" and "w' \<in> set white_space" and "prefix w' (w @ s)"
  shows "w' = w"
proof -
  have "prefix w (w @ s)" by simp
  with assms(3) have "prefix w' w \<or> prefix w w'"
    by (rule prefix_same_cases)
  with assms(1,2) white_space_code show ?thesis
    by (auto simp: list_all_iff)
qed

lemma white_space_suffix_free:
  assumes "w \<in> set white_space" and "w' \<in> set white_space" and "suffix w' (s @ w)"
  shows "w' = w"
proof -
  have "suffix w (s @ w)" by (rule suffixI) simp
  with assms(3) have "suffix w' w \<or> suffix w w'"
    by (rule suffix_same_cases)
  with assms(1,2) white_space_code show ?thesis
    by (auto simp: list_all_iff)
qed

lemma leading_space_zero: "leading_space s = 0 \<longleftrightarrow> (\<forall>w \<in> set white_space. \<not> prefix w s)"
proof (cases "find (HasPrefix s) white_space")
  case None
  then have "leading_space s = 0"
    by (simp add: leading_space_def)
  moreover from None have "\<forall>w \<in> set white_space. \<not> prefix w s"
    by (auto simp: find_None_iff HasPrefix_prefix)
  ultimately show ?thesis by simp
next
  case (Some w)
  from find_SomeD [OF Some] have "w \<in> set white_space" "prefix w s"
    by (simp_all add: HasPrefix_prefix)
  with Some white_space_nonempty [of w] show ?thesis
    by (auto simp: leading_space_def)
qed

lemma trailing_space_zero: "trailing_space s = 0 \<longleftrightarrow> (\<forall>w \<in> set white_space. \<not> suffix w s)"
proof (cases "find (HasSuffix s) white_space")
  case None
  then have "trailing_space s = 0"
    by (simp add: trailing_space_def)
  moreover from None have "\<forall>w \<in> set white_space. \<not> suffix w s"
    by (auto simp: find_None_iff HasSuffix_suffix)
  ultimately show ?thesis by simp
next
  case (Some w)
  from find_SomeD [OF Some] have "w \<in> set white_space" "suffix w s"
    by (simp_all add: HasSuffix_suffix)
  with Some white_space_nonempty [of w] show ?thesis
    by (auto simp: trailing_space_def)
qed

lemma leading_space_append:
  assumes "w \<in> set white_space"
  shows "leading_space (w @ s) = length w"
proof (cases "find (HasPrefix (w @ s)) white_space")
  case None
  with assms show ?thesis
    by (auto simp: find_None_iff HasPrefix_prefix)
next
  case (Some w')
  from find_SomeD [OF Some] have "w' \<in> set white_space" "prefix w' (w @ s)"
    by (simp_all add: HasPrefix_prefix)
  with assms have "w' = w"
    by (auto dest: white_space_prefix_free)
  with Some show ?thesis
    by (simp add: leading_space_def)
qed

lemma trailing_space_append:
  assumes "w \<in> set white_space"
  shows "trailing_space (s @ w) = length w"
proof (cases "find (HasSuffix (s @ w)) white_space")
  case None
  moreover have "suffix w (s @ w)" by (rule suffixI) simp
  ultimately show ?thesis
    using assms by (auto simp: find_None_iff HasSuffix_suffix)
next
  case (Some w')
  from find_SomeD [OF Some] have "w' \<in> set white_space" "suffix w' (s @ w)"
    by (simp_all add: HasSuffix_suffix)
  with assms have "w' = w"
    by (auto dest: white_space_suffix_free)
  with Some show ?thesis
    by (simp add: trailing_space_def)
qed

lemma leading_space_white:
  "leading_space s \<noteq> 0 \<Longrightarrow> take (leading_space s) s \<in> set white_space"
  by (auto simp: leading_space_def HasPrefix_def split: option.splits dest!: find_SomeD)

lemma trailing_space_white:
  "trailing_space s \<noteq> 0 \<Longrightarrow> drop (length s - trailing_space s) s \<in> set white_space"
  by (auto simp: trailing_space_def HasSuffix_def split: option.splits dest!: find_SomeD)

lemma blank_Nil: "blank []"
  unfolding blank_def by (rule exI [of _ "[]"]) simp

lemma blank_white: "w \<in> set white_space \<Longrightarrow> blank w"
  unfolding blank_def by (rule exI [of _ "[w]"]) simp

lemma blank_append: "blank a \<Longrightarrow> blank b \<Longrightarrow> blank (a @ b)"
proof -
  assume "blank a" and "blank b"
  then obtain ws vs where "set ws \<subseteq> set white_space" "a = concat ws"
      "set vs \<subseteq> set white_space" "b = concat vs"
    by (auto simp: blank_def)
  then have "set (ws @ vs) \<subseteq> set white_space \<and> a @ b = concat (ws @ vs)"
    by simp
  then show ?thesis
    unfolding blank_def by blast
qed

text \<open>What the two loops of \<open>TrimSpace\<close> remove is white space, and all of it.\<close>

lemma TrimLeft_blank: "\<exists>a. blank a \<and> s = a @ TrimLeft s"
proof (induction s rule: TrimLeft.induct)
  case (1 s)
  show ?case
  proof (cases "leading_space s = 0")
    case True
    then show ?thesis
      using blank_Nil by (subst TrimLeft.simps) auto
  next
    case False
    from 1 [OF False] obtain a where a: "blank a"
        "drop (leading_space s) s = a @ TrimLeft (drop (leading_space s) s)"
      by blast
    have "blank (take (leading_space s) s)"
      by (rule blank_white [OF leading_space_white [OF False]])
    then have "blank (take (leading_space s) s @ a)"
      using a(1) by (rule blank_append)
    moreover have "s = (take (leading_space s) s @ a) @ TrimLeft s"
      using a(2) False by (subst TrimLeft.simps) (simp flip: a(2))
    ultimately show ?thesis by blast
  qed
qed

lemma TrimRight_blank: "\<exists>c. blank c \<and> s = TrimRight s @ c"
proof (induction s rule: TrimRight.induct)
  case (1 s)
  show ?case
  proof (cases "trailing_space s = 0")
    case True
    then show ?thesis
      using blank_Nil by (subst TrimRight.simps) auto
  next
    case False
    let ?n = "length s - trailing_space s"
    from 1 [OF False] obtain c where c: "blank c" "take ?n s = TrimRight (take ?n s) @ c"
      by blast
    have "blank (drop ?n s)"
      by (rule blank_white [OF trailing_space_white [OF False]])
    with c(1) have "blank (c @ drop ?n s)"
      by (rule blank_append)
    moreover have "TrimRight s = TrimRight (take ?n s)"
      using False by (subst TrimRight.simps) simp
    then have "s = TrimRight s @ (c @ drop ?n s)"
      using c(2) by (metis append.assoc append_take_drop_id)
    ultimately show ?thesis by blast
  qed
qed

lemma TrimLeft_tight: "leading_space (TrimLeft s) = 0"
proof (induction s rule: TrimLeft.induct)
  case (1 s)
  then show ?case
    by (subst TrimLeft.simps) simp
qed

lemma TrimRight_tight: "trailing_space (TrimRight s) = 0"
proof (induction s rule: TrimRight.induct)
  case (1 s)
  then show ?case
    by (subst TrimRight.simps) simp
qed

lemma TrimRight_prefix: "prefix (TrimRight s) s"
  using TrimRight_blank [of s] by (metis prefixI)

lemma TrimRight_leading: "leading_space s = 0 \<Longrightarrow> leading_space (TrimRight s) = 0"
  unfolding leading_space_zero using TrimRight_prefix [of s] by (meson prefix_order.trans)

lemma TrimSpace_tight: "tight (TrimSpace s)"
  using TrimRight_tight [of "TrimLeft s"] TrimRight_leading [OF TrimLeft_tight, of s]
  by (simp add: tight_def TrimSpace_def list_all_iff leading_space_zero trailing_space_zero)

lemma TrimSpace_blank: "\<exists>a c. blank a \<and> blank c \<and> s = a @ TrimSpace s @ c"
proof -
  obtain a where a: "blank a" "s = a @ TrimLeft s"
    using TrimLeft_blank by blast
  obtain c where c: "blank c" "TrimLeft s = TrimRight (TrimLeft s) @ c"
    using TrimRight_blank by blast
  from a(2) c(2) have "s = a @ TrimSpace s @ c"
    by (simp add: TrimSpace_def)
  with a(1) c(1) show ?thesis by blast
qed

text \<open>On a text with known white space around a tight core, the loops stop at the core.\<close>

lemma TrimLeft_append:
  assumes "blank a" and "leading_space t = 0"
  shows "TrimLeft (a @ t) = t"
proof -
  from assms(1) obtain ws where "set ws \<subseteq> set white_space" "a = concat ws"
    by (auto simp: blank_def)
  then show ?thesis
  proof (induction ws arbitrary: a)
    case Nil
    with assms(2) show ?case
      by (subst TrimLeft.simps) simp
  next
    case (Cons w ws)
    then have w: "w \<in> set white_space" and a: "a @ t = w @ concat ws @ t"
      by simp_all
    have "leading_space (a @ t) = length w"
      unfolding a by (rule leading_space_append [OF w])
    moreover have "length w \<noteq> 0"
      using white_space_nonempty [OF w] by simp
    ultimately have "TrimLeft (a @ t) = TrimLeft (concat ws @ t)"
      by (subst TrimLeft.simps) (simp add: a)
    with Cons show ?case by simp
  qed
qed

lemma TrimRight_append:
  assumes "blank c" and "trailing_space t = 0"
  shows "TrimRight (t @ c) = t"
proof -
  from assms(1) obtain ws where "set ws \<subseteq> set white_space" "c = concat ws"
    by (auto simp: blank_def)
  then show ?thesis
  proof (induction ws arbitrary: c rule: rev_induct)
    case Nil
    with assms(2) show ?case
      by (subst TrimRight.simps) simp
  next
    case (snoc w ws)
    then have w: "w \<in> set white_space" and c: "t @ c = (t @ concat ws) @ w"
      by simp_all
    have "trailing_space (t @ c) = length w"
      unfolding c by (rule trailing_space_append [OF w])
    moreover have "length w \<noteq> 0"
      using white_space_nonempty [OF w] by simp
    ultimately have "TrimRight (t @ c) = TrimRight (t @ concat ws)"
      by (subst TrimRight.simps) (simp add: c)
    with snoc show ?case by simp
  qed
qed

lemma leading_space_module: "leading_space (''module '' @ r) = 0"
proof -
  have "\<not> prefix w (''module '' @ r)" if "w \<in> set white_space" for w
  proof
    assume "prefix w (''module '' @ r)"
    moreover have "prefix ''m'' (''module '' @ r)" by simp
    ultimately have "prefix w ''m'' \<or> prefix ''m'' w"
      by (rule prefix_same_cases)
    moreover have "w \<noteq> []" "\<not> prefix ''m'' w"
      using that white_space_code white_space_module_code by (auto simp: list_all_iff)
    ultimately show False
      by (cases w) auto
  qed
  then show ?thesis by (simp add: leading_space_zero)
qed

lemma trailing_space_module: "trailing_space ''module'' = 0"
  using white_space_module_code by (auto simp: trailing_space_zero list_all_iff)

lemma trailing_space_core:
  assumes "blank b" and "x \<noteq> []" and "trailing_space x = 0"
  shows "trailing_space (''module '' @ b @ x) = 0"
proof -
  have "\<not> suffix w (''module '' @ b @ x)" if w: "w \<in> set white_space" for w
  proof
    assume "suffix w (''module '' @ b @ x)"
    then have "suffix w ((''module '' @ b) @ x)" by simp
    then consider "suffix w x" | u where "suffix u (''module '' @ b)" "w = u @ x"
      unfolding suffix_append_cases by blast
    then show False
    proof cases
      case 1
      with w assms(3) show False by (simp add: trailing_space_zero)
    next
      case 2
      have "u \<noteq> []"
        using 2(2) w assms(3) by (auto simp: trailing_space_zero)
      moreover have "u \<noteq> w"
        using 2(2) assms(2) by simp
      moreover have "prefix u w"
        using 2(2) by simp
      moreover from white_space_pieces_code w
      have "\<forall>u. prefix u w \<longrightarrow> u = [] \<or> u = w \<or>
          (\<not> suffix u ''module '' \<and> (\<forall>e \<in> set white_space. \<not> suffix u e \<and> \<not> suffix e u))"
        by (simp add: list_all_iff)
      ultimately have piece: "\<not> suffix u ''module ''"
          "\<And>e. e \<in> set white_space \<Longrightarrow> \<not> suffix u e \<and> \<not> suffix e u"
        by blast+
      from assms(1) obtain ws where ws: "set ws \<subseteq> set white_space" "b = concat ws"
        by (auto simp: blank_def)
      show False
      proof (cases ws rule: rev_cases)
        case Nil
        with ws 2(1) piece(1) show False by simp
      next
        case (snoc vs e)
        with ws have e: "e \<in> set white_space" by simp
        from 2(1) snoc ws have "suffix u ((''module '' @ concat vs) @ e)"
          by simp
        then have "suffix u e \<or> (\<exists>v. u = v @ e)"
          unfolding suffix_append_cases by blast
        then have "suffix u e \<or> suffix e u"
          by (auto simp: suffix_def)
        with piece(2) [OF e] show False by blast
      qed
    qed
  qed
  then show ?thesis by (simp add: trailing_space_zero)
qed

lemma tight_spaces: "tight x \<longleftrightarrow> leading_space x = 0 \<and> trailing_space x = 0"
  by (auto simp: tight_def list_all_iff leading_space_zero trailing_space_zero)

text \<open>The identifier of a module line.\<close>

lemma TrimSpace_module_line:
  assumes "blank a" and "blank b" and "blank c" and "tight x" and "x \<noteq> []"
  shows "TrimSpace (a @ ''module '' @ b @ x @ c) = ''module '' @ b @ x"
    and "TrimSpace (TrimPrefix (TrimSpace (a @ ''module '' @ b @ x @ c)) ''module '') = x"
proof -
  from assms(4) have x: "leading_space x = 0" "trailing_space x = 0"
    by (simp_all add: tight_spaces)
  have "TrimLeft (a @ ''module '' @ b @ x @ c) = ''module '' @ b @ x @ c"
    using TrimLeft_append [OF assms(1) leading_space_module, of "b @ x @ c"] by simp
  moreover have "TrimRight ((''module '' @ b @ x) @ c) = ''module '' @ b @ x"
    by (rule TrimRight_append [OF assms(3) trailing_space_core [OF assms(2,5) x(2)]])
  ultimately show line: "TrimSpace (a @ ''module '' @ b @ x @ c) = ''module '' @ b @ x"
    by (simp add: TrimSpace_def)
  have inner: "TrimPrefix (TrimSpace (a @ ''module '' @ b @ x @ c)) ''module '' = b @ x"
    unfolding line by (simp add: TrimPrefix_def HasPrefix_def)
  have "TrimLeft (b @ x) = x"
    by (rule TrimLeft_append [OF assms(2) x(1)])
  moreover have "TrimRight x = x"
    using x(2) by (subst TrimRight.simps) simp
  ultimately have "TrimSpace (b @ x) = x"
    by (simp add: TrimSpace_def)
  then show "TrimSpace (TrimPrefix (TrimSpace (a @ ''module '' @ b @ x @ c)) ''module '') = x"
    unfolding inner .
qed

lemma not_blank_core:
  assumes "\<not> blank r"
  shows "\<exists>b x c. blank b \<and> blank c \<and> tight x \<and> x \<noteq> [] \<and> r = b @ x @ c"
proof -
  obtain b c where bc: "blank b" "blank c" "r = b @ TrimSpace r @ c"
    using TrimSpace_blank by blast
  have "TrimSpace r \<noteq> []"
  proof
    assume "TrimSpace r = []"
    with bc have "blank r"
      using blank_append [of b c] by simp
    with assms show False by contradiction
  qed
  with bc TrimSpace_tight show ?thesis by blast
qed

lemma module_line_iff: "module_line line \<longleftrightarrow> HasPrefix (TrimSpace line) ''module ''"
proof
  assume "module_line line"
  then obtain a r where a: "blank a" and r: "\<not> blank r" and line: "line = a @ ''module '' @ r"
    by (auto simp: module_line_def)
  from not_blank_core [OF r] obtain b x c
    where "blank b" "blank c" "tight x" "x \<noteq> []" "r = b @ x @ c"
    by blast
  with a line TrimSpace_module_line(1) [of a b c x]
  show "HasPrefix (TrimSpace line) ''module ''"
    by (simp add: HasPrefix_def)
next
  assume module: "HasPrefix (TrimSpace line) ''module ''"
  obtain a where a: "blank a" "line = a @ TrimLeft line"
    using TrimLeft_blank by blast
  obtain c where c: "blank c" "TrimLeft line = TrimRight (TrimLeft line) @ c"
    using TrimRight_blank by blast
  from module obtain r0 where r0: "TrimRight (TrimLeft line) = ''module '' @ r0"
    by (auto simp: HasPrefix_prefix prefix_def TrimSpace_def)
  have left: "TrimLeft line = ''module '' @ r0 @ c"
    using c(2) r0 by simp
  have "\<not> blank (r0 @ c)"
  proof
    assume rest: "blank (r0 @ c)"
    have "blank '' ''"
      by (rule blank_white) (simp add: white_space_def)
    then have "blank ('' '' @ r0 @ c)"
      using rest by (rule blank_append)
    then have "TrimRight (''module'' @ '' '' @ r0 @ c) = ''module''"
      by (rule TrimRight_append [OF _ trailing_space_module])
    with left r0 show False by simp
  qed
  with a left show "module_line line"
    unfolding module_line_def by (intro exI [of _ a] exI [of _ "r0 @ c"]) simp
qed

subsection \<open>The registry and the index page\<close>

text \<open>
  Claim C1, as the code has it. A run that completes leaves in \<^verbatim>\<open>packages\<close> exactly the
  root records of the qualifying repositories, in the order of the listing; the records
  of the subdirectories are handed to \<^verbatim>\<open>generateHTML\<close> (they are in \<open>rendered\<close>) and are
  not inserted. The index page is rendered from \<^verbatim>\<open>packages\<close>, so it lists the root
  import path of every qualifying repository.
\<close>

theorem registry_holds_root_records:
  assumes "main esc w = Inr final" and "ListByOrg w = Inr repos"
  shows "packages final = concat (map (registered w) repos) \<and>
     rendered final = concat (map (emitted w) repos) \<and>
     (\<forall>repo \<in> set repos. qualifying w repo \<longrightarrow>
        (\<exists>m. module_identifier w repo = Some m \<and>
           registered w repo = [root_record repo m] \<and>
           emitted w repo =
             root_record repo m #
             map (sub_record repo m) (filter subdirectory_source (listing w repo)) \<and>
           root_record repo m \<in> set (packages final) \<and>
           lists_record esc (index_page esc (packages final)) (root_record repo m))) \<and>
     (\<forall>repo \<in> set repos. \<not> qualifying w repo \<longrightarrow> registered w repo = [] \<and> emitted w repo = []) \<and>
     (index_io w = Written \<longrightarrow>
        files final ''public/index.html'' = Some (index_page esc (packages final)))"
proof (intro conjI ballI impI)
  show pk: "packages final = concat (map (registered w) repos)"
    and "rendered final = concat (map (emitted w) repos)"
    by (rule main_packages [OF assms])+
  show "files final ''public/index.html'' = Some (index_page esc (packages final))"
    if "index_io w = Written"
    using that by (rule main_packages [OF assms])
  show "\<exists>m. module_identifier w repo = Some m \<and>
           registered w repo = [root_record repo m] \<and>
           emitted w repo =
             root_record repo m #
             map (sub_record repo m) (filter subdirectory_source (listing w repo)) \<and>
           root_record repo m \<in> set (packages final) \<and>
           lists_record esc (index_page esc (packages final)) (root_record repo m)"
    if "repo \<in> set repos" and "qualifying w repo" for repo
  proof -
    from qualifying_records [OF that(2)] obtain m where m: "module_identifier w repo = Some m"
        "registered w repo = [root_record repo m]"
        "emitted w repo = root_record repo m #
           map (sub_record repo m) (filter subdirectory_source (listing w repo))"
      by blast
    from that(1) m(2) have "root_record repo m \<in> set (packages final)"
      unfolding pk by force
    with m index_page_lists show ?thesis by blast
  qed
  show "registered w repo = []" and "emitted w repo = []" if "\<not> qualifying w repo" for repo
    using that by (simp_all add: registered_def emitted_def split: option.splits)
qed

theorem registry_holds_root_records_witness:
  "\<exists>final. main plain scenario = Inr final \<and> qualifying scenario foo \<and>
     packages final = [root_record foo ''pkg.blksails.net/foo''] \<and>
     rendered final =
       [root_record foo ''pkg.blksails.net/foo'',
        sub_record foo ''pkg.blksails.net/foo'' (foo_listing ! 1)] \<and>
     lists_record plain (index_page plain (packages final))
       (root_record foo ''pkg.blksails.net/foo'') \<and>
     files final ''public/index.html'' = Some (index_page plain (packages final))"
proof -
  have token: "Getenv scenario ''GITHUB_TOKEN'' \<noteq> ''''" and repos: "ListByOrg scenario = Inr [foo]"
    and io: "index_io scenario = Written"
    by (simp_all add: Getenv_def scenario_def)
  have q: "qualifying scenario foo"
    and m: "module_identifier scenario foo = Some ''pkg.blksails.net/foo''"
    by code_simp+
  have sub: "filter subdirectory_source (listing scenario foo) = [foo_listing ! 1]"
    by code_simp
  have "\<not> isl (main plain scenario)"
    by code_simp
  then obtain final where final: "main plain scenario = Inr final"
    by (cases "main plain scenario") auto
  note r = registry_holds_root_records [OF final repos]
  have pk: "packages final = [root_record foo ''pkg.blksails.net/foo'']"
    using r q m by (simp add: registered_def)
  have rd: "rendered final = [root_record foo ''pkg.blksails.net/foo'',
      sub_record foo ''pkg.blksails.net/foo'' (foo_listing ! 1)]"
    using r q m sub by (simp add: emitted_def expand_def)
  have li: "lists_record plain (index_page plain (packages final))
      (root_record foo ''pkg.blksails.net/foo'')"
    using r q m by auto
  have fi: "files final ''public/index.html'' = Some (index_page plain (packages final))"
    using r io by simp
  show ?thesis
    using final q pk rd li fi by blast
qed

text \<open>
  The claim as stated fails on its own example: for the module \<^verbatim>\<open>pkg.blksails.net/foo\<close>
  with the file \<^verbatim>\<open>sub/util.go\<close>, the record of \<^verbatim>\<open>pkg.blksails.net/foo/sub\<close> is rendered
  and is not in \<^verbatim>\<open>packages\<close>; the index page is the head, the item of the root record
  and the tail.
\<close>

theorem subdirectory_not_registered_counterexample:
  "(case main plain scenario of
      Inl err \<Rightarrow> False
    | Inr final \<Rightarrow>
        rendered final =
          [\<lparr>ImportPath = ''pkg.blksails.net/foo'', RepoURL = ''https://github.com/blksails/foo'',
            Description = ''Foo''\<rparr>,
           \<lparr>ImportPath = ''pkg.blksails.net/foo/sub'', RepoURL = ''https://github.com/blksails/foo'',
            Description = ''Foo''\<rparr>] \<and>
        packages final =
          [\<lparr>ImportPath = ''pkg.blksails.net/foo'', RepoURL = ''https://github.com/blksails/foo'',
            Description = ''Foo''\<rparr>] \<and>
        files final ''public/index.html'' =
          Some (index_head @
                index_item plain
                  \<lparr>ImportPath = ''pkg.blksails.net/foo'',
                   RepoURL = ''https://github.com/blksails/foo'', Description = ''Foo''\<rparr> @
                index_tail))"
  by code_simp

text \<open>
  Claim C2, as the code has it. The insertion of the root record of a qualifying
  repository is \<^verbatim>\<open>append\<close>: the record goes to the end, the records before it stay as
  they are, and the number of records with its import path grows by one, whether or
  not the import path was there already. Nothing fails.
\<close>

theorem registry_insert_appends:
  assumes "GetLanguage repo = ''Go''"
    and "GetContents_root w (GetName repo) = Inr contents"
    and "GetContents_go_mod w (GetName repo) = Inr (Some (Inr fileContent))"
    and "HasPrefix (parseModuleName fileContent) basePackage"
  shows "\<exists>s'. repository esc w repo s = Inr s' \<and>
     packages s' = packages s @ [root_record repo (parseModuleName fileContent)] \<and>
     length (packages s') = Suc (length (packages s)) \<and>
     take (length (packages s)) (packages s') = packages s \<and>
     length (filter (\<lambda>pkg. ImportPath pkg = parseModuleName fileContent) (packages s')) =
       Suc (length (filter (\<lambda>pkg. ImportPath pkg = parseModuleName fileContent) (packages s)))"
proof -
  let ?s' = "subdirectories esc w (parseModuleName fileContent) repo contents
       (log_error (''Error generating HTML for '' @ parseModuleName fileContent @ '': '')
          (generateHTML esc w (root_record repo (parseModuleName fileContent))
             (s\<lparr>packages := packages s @ [root_record repo (parseModuleName fileContent)]\<rparr>)))"
  have "repository esc w repo s = Inr ?s'"
    by (rule repository_qualifying [OF assms])
  moreover have "packages ?s' = packages s @ [root_record repo (parseModuleName fileContent)]"
    by simp
  ultimately show ?thesis
    by (intro exI [of _ ?s']) (simp add: root_record_def)
qed

theorem registry_insert_appends_witness:
  "\<exists>s1 s2. repository plain same_module foo init = Inr s1 \<and>
     repository plain same_module bar s1 = Inr s2 \<and>
     packages s1 = [root_record foo ''pkg.blksails.net/foo''] \<and>
     packages s2 = packages s1 @ [root_record bar ''pkg.blksails.net/foo''] \<and>
     length (filter (\<lambda>pkg. ImportPath pkg = ''pkg.blksails.net/foo'') (packages s1)) = 1 \<and>
     length (filter (\<lambda>pkg. ImportPath pkg = ''pkg.blksails.net/foo'') (packages s2)) = 2"
proof -
  have foo: "GetLanguage foo = ''Go''"
    "GetContents_root same_module (GetName foo) = Inr foo_listing"
    "GetContents_go_mod same_module (GetName foo) = Inr (Some (Inr foo_go_mod))"
    "HasPrefix (parseModuleName foo_go_mod) basePackage"
    by code_simp+
  have bar: "GetLanguage bar = ''Go''"
    "GetContents_root same_module (GetName bar) = Inr foo_listing"
    "GetContents_go_mod same_module (GetName bar) = Inr (Some (Inr foo_go_mod))"
    "HasPrefix (parseModuleName foo_go_mod) basePackage"
    by code_simp+
  have m: "parseModuleName foo_go_mod = ''pkg.blksails.net/foo''"
    by code_simp
  from registry_insert_appends [OF foo, of plain init, unfolded m]
  obtain s1 where s1: "repository plain same_module foo init = Inr s1"
      "packages s1 = [root_record foo ''pkg.blksails.net/foo'']"
      "length (filter (\<lambda>pkg. ImportPath pkg = ''pkg.blksails.net/foo'') (packages s1)) = 1"
    by (auto simp: init_def)
  from registry_insert_appends [OF bar, of plain s1, unfolded m]
  obtain s2 where s2: "repository plain same_module bar s1 = Inr s2"
      "packages s2 = packages s1 @ [root_record bar ''pkg.blksails.net/foo'']"
      "length (filter (\<lambda>pkg. ImportPath pkg = ''pkg.blksails.net/foo'') (packages s2)) =
         Suc (length (filter (\<lambda>pkg. ImportPath pkg = ''pkg.blksails.net/foo'') (packages s1)))"
    by blast
  from s1 s2 show ?thesis
    by (intro exI [of _ s1] exI [of _ s2]) simp
qed

text \<open>
  Two repositories that declare the same module leave two records with the same import
  path in \<^verbatim>\<open>packages\<close>: the import path is not unique, and the second insertion did
  not replace the first record.
\<close>

theorem duplicate_import_path_counterexample:
  "(case main plain same_module of
      Inl err \<Rightarrow> False
    | Inr final \<Rightarrow>
        packages final =
          [\<lparr>ImportPath = ''pkg.blksails.net/foo'', RepoURL = ''https://github.com/blksails/foo'',
            Description = ''Foo''\<rparr>,
           \<lparr>ImportPath = ''pkg.blksails.net/foo'', RepoURL = ''https://github.com/blksails/bar'',
            Description = ''''\<rparr>] \<and>
        \<not> distinct (map ImportPath (packages final)))"
  by code_simp

subsection \<open>The expansion of a repository\<close>

text \<open>
  Claim C3, as the code has it. For a repository that passes the checks, with module
  identifier \<open>m\<close>, the records handed to \<^verbatim>\<open>generateHTML\<close> are those of \<open>expand\<close>: first
  the root record, with import path \<open>m\<close>, and then one record per listed entry of type
  \<^verbatim>\<open>file\<close> whose name ends in \<^verbatim>\<open>.go\<close> and whose directory is not \<^verbatim>\<open>.\<close>, with the import
  path \<^verbatim>\<open>filepath.Join(m, dir)\<close> and the URL and description of the repository. The
  entries in the root directory give no record: without them the records are the same.
  The distinct import paths of the subdirectory records are at most as many as the
  distinct directories of the source files, so two files of one directory give one
  import path. The root record is the only record with import path \<open>m\<close> when the
  listed paths are relative paths without empty, \<^verbatim>\<open>.\<close> and \<^verbatim>\<open>..\<close> elements; the code
  does not look at the shape of a path.
\<close>

theorem expansion_records:
  assumes "GetLanguage repo = ''Go''"
    and "GetContents_root w (GetName repo) = Inr contents"
    and "GetContents_go_mod w (GetName repo) = Inr (Some (Inr fileContent))"
    and "HasPrefix (parseModuleName fileContent) basePackage"
  shows "(\<exists>s'. repository esc w repo s = Inr s' \<and>
        rendered s' = rendered s @ expand (parseModuleName fileContent) repo contents) \<and>
     expand (parseModuleName fileContent) repo contents =
       \<lparr>ImportPath = parseModuleName fileContent, RepoURL = GetHTMLURL repo,
        Description = GetDescription repo\<rparr> #
       map (\<lambda>content.
              \<lparr>ImportPath = filepath_Join
                 [parseModuleName fileContent, filepath_Dir (content_GetPath content)],
               RepoURL = GetHTMLURL repo, Description = GetDescription repo\<rparr>)
         (filter (\<lambda>content. content_GetType content = ''file'' \<and>
                    HasSuffix (content_GetName content) ''.go'' \<and>
                    filepath_Dir (content_GetPath content) \<noteq> ''.'') contents) \<and>
     expand (parseModuleName fileContent) repo contents =
       expand (parseModuleName fileContent) repo
         (filter (\<lambda>content. filepath_Dir (content_GetPath content) \<noteq> ''.'') contents) \<and>
     card (set (map ImportPath (tl (expand (parseModuleName fileContent) repo contents))))
       \<le> card ((\<lambda>content. filepath_Dir (content_GetPath content)) `
                {content \<in> set contents. subdirectory_source content}) \<and>
     ((\<forall>content \<in> set contents. repository_path (content_GetPath content)) \<longrightarrow>
        length (filter (\<lambda>pkg. ImportPath pkg = parseModuleName fileContent)
          (expand (parseModuleName fileContent) repo contents)) = 1)"
proof (intro conjI impI)
  let ?m = "parseModuleName fileContent"
  have e: "expand ?m repo contents =
       root_record repo ?m # map (sub_record repo ?m) (filter subdirectory_source contents)"
    by (simp add: expand_def)
  have "rendered (subdirectories esc w ?m repo contents
       (log_error (''Error generating HTML for '' @ ?m @ '': '')
          (generateHTML esc w (root_record repo ?m)
             (s\<lparr>packages := packages s @ [root_record repo ?m]\<rparr>)))) =
       rendered s @ expand ?m repo contents"
    by (simp add: e subdirectories_rendered)
  with repository_qualifying [OF assms, of esc s]
  show "\<exists>s'. repository esc w repo s = Inr s' \<and>
        rendered s' = rendered s @ expand ?m repo contents"
    by blast
  show "expand ?m repo contents =
       \<lparr>ImportPath = ?m, RepoURL = GetHTMLURL repo, Description = GetDescription repo\<rparr> #
       map (\<lambda>content.
              \<lparr>ImportPath = filepath_Join [?m, filepath_Dir (content_GetPath content)],
               RepoURL = GetHTMLURL repo, Description = GetDescription repo\<rparr>)
         (filter (\<lambda>content. content_GetType content = ''file'' \<and>
                    HasSuffix (content_GetName content) ''.go'' \<and>
                    filepath_Dir (content_GetPath content) \<noteq> ''.'') contents)"
    unfolding expand_def root_record_def sub_record_def subdirectory_source_def ..
  have "filter subdirectory_source
      (filter (\<lambda>content. filepath_Dir (content_GetPath content) \<noteq> ''.'') contents) =
      filter subdirectory_source contents"
    by (induction contents) (auto simp: subdirectory_source_def)
  then show "expand ?m repo contents =
      expand ?m repo (filter (\<lambda>content. filepath_Dir (content_GetPath content) \<noteq> ''.'') contents)"
    by (simp add: expand_def)
  show "card (set (map ImportPath (tl (expand ?m repo contents))))
       \<le> card ((\<lambda>content. filepath_Dir (content_GetPath content)) `
                {content \<in> set contents. subdirectory_source content})"
    unfolding e list.sel by (rule sub_import_paths)
  show "length (filter (\<lambda>pkg. ImportPath pkg = ?m) (expand ?m repo contents)) = 1"
    if wf: "\<forall>content \<in> set contents. repository_path (content_GetPath content)"
  proof -
    from assms(4) have "?m \<noteq> ''''"
      by (auto simp: HasPrefix_def basePackage_def)
    then have "filter (\<lambda>pkg. ImportPath pkg = ?m)
        (map (sub_record repo ?m) (filter subdirectory_source contents)) = []"
      using wf by (auto simp: filter_empty_conv dest: sub_record_not_root)
    then show ?thesis
      by (simp add: e root_record_def)
  qed
qed

theorem expansion_records_witness:
  "GetContents_root two_sources (GetName foo) = Inr a_listing \<and>
   parseModuleName foo_go_mod = ''pkg.blksails.net/foo'' \<and>
   list_all (\<lambda>content. repository_path (content_GetPath content)) a_listing \<and>
   (\<exists>s'. repository plain two_sources foo init = Inr s' \<and>
      rendered s' = expand ''pkg.blksails.net/foo'' foo a_listing) \<and>
   expand ''pkg.blksails.net/foo'' foo a_listing =
     [\<lparr>ImportPath = ''pkg.blksails.net/foo'', RepoURL = ''https://github.com/blksails/foo'',
       Description = ''Foo''\<rparr>,
      \<lparr>ImportPath = ''pkg.blksails.net/foo/a'', RepoURL = ''https://github.com/blksails/foo'',
       Description = ''Foo''\<rparr>,
      \<lparr>ImportPath = ''pkg.blksails.net/foo/a'', RepoURL = ''https://github.com/blksails/foo'',
       Description = ''Foo''\<rparr>] \<and>
   card (set (map ImportPath (tl (expand ''pkg.blksails.net/foo'' foo a_listing)))) = 1 \<and>
   card ((\<lambda>content. filepath_Dir (content_GetPath content)) `
     {content \<in> set a_listing. subdirectory_source content}) = 1 \<and>
   length (filter (\<lambda>pkg. ImportPath pkg = ''pkg.blksails.net/foo'')
     (expand ''pkg.blksails.net/foo'' foo a_listing)) = 1"
proof -
  have h: "GetLanguage foo = ''Go''"
    "GetContents_root two_sources (GetName foo) = Inr a_listing"
    "GetContents_go_mod two_sources (GetName foo) = Inr (Some (Inr foo_go_mod))"
    "HasPrefix (parseModuleName foo_go_mod) basePackage"
    by code_simp+
  have m: "parseModuleName foo_go_mod = ''pkg.blksails.net/foo''"
    by code_simp
  have wf: "list_all (\<lambda>content. repository_path (content_GetPath content)) a_listing"
    by code_simp
  have records: "expand ''pkg.blksails.net/foo'' foo a_listing =
     [\<lparr>ImportPath = ''pkg.blksails.net/foo'', RepoURL = ''https://github.com/blksails/foo'',
       Description = ''Foo''\<rparr>,
      \<lparr>ImportPath = ''pkg.blksails.net/foo/a'', RepoURL = ''https://github.com/blksails/foo'',
       Description = ''Foo''\<rparr>,
      \<lparr>ImportPath = ''pkg.blksails.net/foo/a'', RepoURL = ''https://github.com/blksails/foo'',
       Description = ''Foo''\<rparr>]"
    by code_simp
  note r = expansion_records [OF h, of plain init, unfolded m]
  have a: "\<exists>s'. repository plain two_sources foo init = Inr s' \<and>
      rendered s' = expand ''pkg.blksails.net/foo'' foo a_listing"
    using conjunct1 [OF r] by (simp add: init_def del: filepath_Join.simps)
  have b: "length (filter (\<lambda>pkg. ImportPath pkg = ''pkg.blksails.net/foo'')
     (expand ''pkg.blksails.net/foo'' foo a_listing)) = 1"
    using r wf unfolding list_all_iff by blast
  have "{content \<in> set a_listing. subdirectory_source content} =
      set (filter subdirectory_source a_listing)"
    by auto
  also have "filter subdirectory_source a_listing =
      [\<lparr>content_Type = Some ''file'', content_Name = Some ''x.go'', content_Path = Some ''a/x.go''\<rparr>,
       \<lparr>content_Type = Some ''file'', content_Name = Some ''y.go'', content_Path = Some ''a/y.go''\<rparr>]"
    by code_simp
  finally have "(\<lambda>content. filepath_Dir (content_GetPath content)) `
      {content \<in> set a_listing. subdirectory_source content} =
      set (map (\<lambda>content. filepath_Dir (content_GetPath content))
        [\<lparr>content_Type = Some ''file'', content_Name = Some ''x.go'', content_Path = Some ''a/x.go''\<rparr>,
         \<lparr>content_Type = Some ''file'', content_Name = Some ''y.go'', content_Path = Some ''a/y.go''\<rparr>])"
    by simp
  also have "map (\<lambda>content. filepath_Dir (content_GetPath content))
        [\<lparr>content_Type = Some ''file'', content_Name = Some ''x.go'', content_Path = Some ''a/x.go''\<rparr>,
         \<lparr>content_Type = Some ''file'', content_Name = Some ''y.go'', content_Path = Some ''a/y.go''\<rparr>] =
      [''a'', ''a'']"
    by code_simp
  finally have dirs: "card ((\<lambda>content. filepath_Dir (content_GetPath content)) `
      {content \<in> set a_listing. subdirectory_source content}) = 1"
    by simp
  have paths: "card (set (map ImportPath (tl (expand ''pkg.blksails.net/foo'' foo a_listing)))) = 1"
    unfolding records by simp
  show ?thesis
    using h(2) m wf a records paths dirs b by blast
qed

text \<open>
  The claim as stated fails on a listing with the path \<^verbatim>\<open>/x.go\<close>, and on one with the
  path \<^verbatim>\<open>../foo/y.go\<close>: the directory is not \<^verbatim>\<open>.\<close>, the join with the module
  identifier gives the identifier back, and two records have the import path
  \<^verbatim>\<open>pkg.blksails.net/foo\<close>.
\<close>

theorem second_root_record_counterexample:
  "filepath_Dir ''/x.go'' = ''/'' \<and>
   filepath_Join [''pkg.blksails.net/foo'', ''/''] = ''pkg.blksails.net/foo'' \<and>
   filepath_Dir ''../foo/y.go'' = ''../foo'' \<and>
   filepath_Join [''pkg.blksails.net/foo'', ''../foo''] = ''pkg.blksails.net/foo'' \<and>
   (case repository plain rooted_source foo init of
      Inl a \<Rightarrow> False
    | Inr s' \<Rightarrow>
        rendered s' =
          [\<lparr>ImportPath = ''pkg.blksails.net/foo'', RepoURL = ''https://github.com/blksails/foo'',
            Description = ''Foo''\<rparr>,
           \<lparr>ImportPath = ''pkg.blksails.net/foo'', RepoURL = ''https://github.com/blksails/foo'',
            Description = ''Foo''\<rparr>] \<and>
        length (filter (\<lambda>pkg. ImportPath pkg = ''pkg.blksails.net/foo'') (rendered s')) = 2) \<and>
   (case repository plain outside_source foo init of
      Inl a \<Rightarrow> False
    | Inr s' \<Rightarrow>
        length (filter (\<lambda>pkg. ImportPath pkg = ''pkg.blksails.net/foo'') (rendered s')) = 2)"
  by code_simp

subsection \<open>The manifest parser\<close>

lemma parseModuleName_loop_find:
  "parseModuleName_loop lines =
     (case find (\<lambda>line. HasPrefix (TrimSpace line) ''module '') lines of
        None \<Rightarrow> ''''
      | Some line \<Rightarrow> TrimSpace (TrimPrefix (TrimSpace line) ''module ''))"
  by (induction lines) simp_all

lemma parseModuleName_loop_skip:
  "\<forall>line \<in> set before. \<not> HasPrefix (TrimSpace line) ''module '' \<Longrightarrow>
   parseModuleName_loop (before @ lines) = parseModuleName_loop lines"
  by (induction before) simp_all

text \<open>
  Claim C4. The lines of a text are its pieces between the newlines. When the first
  module line of the text is white space, the token \<^verbatim>\<open>module \<close>, white space, a tight
  text \<open>x\<close> and white space, \<open>parseModuleName\<close> returns \<open>x\<close>: the remainder after the
  token with the white space around it removed. Every module line has that form, and
  the module lines are the lines whose trimmed form starts with the token. When no line
  is a module line the result is the empty string, and so it is on the empty text.
\<close>

theorem parseModuleName_first_module_line:
  "(Split content (CHR 0x0A) = before @ (a @ ''module '' @ b @ x @ c) # after \<and>
      (\<forall>line \<in> set before. \<not> module_line line) \<and>
      blank a \<and> blank b \<and> blank c \<and> tight x \<and> x \<noteq> '''' \<longrightarrow>
      parseModuleName content = x) \<and>
   ((\<forall>line \<in> set (Split content (CHR 0x0A)). \<not> module_line line) \<longrightarrow>
      parseModuleName content = '''') \<and>
   parseModuleName '''' = '''' \<and>
   (module_line line \<longleftrightarrow>
      (\<exists>a b x c. blank a \<and> blank b \<and> blank c \<and> tight x \<and> x \<noteq> '''' \<and>
         line = a @ ''module '' @ b @ x @ c)) \<and>
   (module_line line \<longleftrightarrow> HasPrefix (TrimSpace line) ''module '') \<and>
   strings_Join (Split content (CHR 0x0A)) [CHR 0x0A] = content \<and>
   (\<forall>line \<in> set (Split content (CHR 0x0A)). CHR 0x0A \<notin> set line) \<and>
   parseModuleName content =
     (case find (\<lambda>line. HasPrefix (TrimSpace line) ''module '') (Split content (CHR 0x0A)) of
        None \<Rightarrow> ''''
      | Some line \<Rightarrow> TrimSpace (TrimPrefix (TrimSpace line) ''module ''))"
proof (intro conjI impI ballI)
  show "parseModuleName content = x"
    if "Split content (CHR 0x0A) = before @ (a @ ''module '' @ b @ x @ c) # after \<and>
      (\<forall>line \<in> set before. \<not> module_line line) \<and>
      blank a \<and> blank b \<and> blank c \<and> tight x \<and> x \<noteq> ''''"
  proof -
    from that have lines: "Split content (CHR 0x0A) = before @ (a @ ''module '' @ b @ x @ c) # after"
      and before: "\<forall>line \<in> set before. \<not> HasPrefix (TrimSpace line) ''module ''"
      and core: "blank a" "blank b" "blank c" "tight x" "x \<noteq> ''''"
      by (simp_all add: module_line_iff)
    have "HasPrefix (TrimSpace (a @ ''module '' @ b @ x @ c)) ''module ''"
      unfolding TrimSpace_module_line(1) [OF core] by (simp add: HasPrefix_def)
    then have "parseModuleName_loop ((a @ ''module '' @ b @ x @ c) # after) = x"
      using TrimSpace_module_line(2) [OF core] by simp
    then show ?thesis
      unfolding parseModuleName_def lines parseModuleName_loop_skip [OF before] .
  qed
  show "parseModuleName content = ''''"
    if "\<forall>line \<in> set (Split content (CHR 0x0A)). \<not> module_line line"
  proof -
    from that have "find (\<lambda>line. HasPrefix (TrimSpace line) ''module '')
        (Split content (CHR 0x0A)) = None"
      by (simp add: find_None_iff module_line_iff)
    then show ?thesis
      by (simp add: parseModuleName_def parseModuleName_loop_find)
  qed
  have "TrimLeft '''' = ''''"
    by (subst TrimLeft.simps) (simp add: leading_space_def white_space_def HasPrefix_def)
  moreover have "TrimRight '''' = ''''"
    by (subst TrimRight.simps) (simp add: trailing_space_def white_space_def HasSuffix_def)
  ultimately have "TrimSpace '''' = ''''"
    by (simp add: TrimSpace_def)
  then show "parseModuleName '''' = ''''"
    by (simp add: parseModuleName_def HasPrefix_def)
  show "module_line line \<longleftrightarrow>
      (\<exists>a b x c. blank a \<and> blank b \<and> blank c \<and> tight x \<and> x \<noteq> '''' \<and>
         line = a @ ''module '' @ b @ x @ c)"
  proof
    assume "module_line line"
    then obtain a r where a: "blank a" and r: "\<not> blank r" and line: "line = a @ ''module '' @ r"
      by (auto simp: module_line_def)
    from not_blank_core [OF r] a line show "\<exists>a b x c. blank a \<and> blank b \<and> blank c \<and>
        tight x \<and> x \<noteq> '''' \<and> line = a @ ''module '' @ b @ x @ c"
      by blast
  next
    assume "\<exists>a b x c. blank a \<and> blank b \<and> blank c \<and> tight x \<and> x \<noteq> '''' \<and>
        line = a @ ''module '' @ b @ x @ c"
    then obtain a b x c where core: "blank a" "blank b" "blank c" "tight x" "x \<noteq> ''''"
      and line: "line = a @ ''module '' @ b @ x @ c"
      by blast
    show "module_line line"
      unfolding module_line_iff line TrimSpace_module_line(1) [OF core]
      by (simp add: HasPrefix_def)
  qed
  show "module_line line \<longleftrightarrow> HasPrefix (TrimSpace line) ''module ''"
    by (rule module_line_iff)
  show "strings_Join (Split content (CHR 0x0A)) [CHR 0x0A] = content"
    by (rule strings_Join_Split)
  show "CHR 0x0A \<notin> set line" if "line \<in> set (Split content (CHR 0x0A))" for line
    using that by (rule Split_no_sep)
  show "parseModuleName content =
     (case find (\<lambda>line. HasPrefix (TrimSpace line) ''module '') (Split content (CHR 0x0A)) of
        None \<Rightarrow> ''''
      | Some line \<Rightarrow> TrimSpace (TrimPrefix (TrimSpace line) ''module ''))"
    unfolding parseModuleName_def by (rule parseModuleName_loop_find)
qed

theorem parseModuleName_first_module_line_witness:
  "Split indented_go_mod (CHR 0x0A) =
     [''// the module'' @ [CHR 0x0D]] @
     ([CHR 0x09, CHR 0x20] @ ''module '' @ ''  '' @ ''pkg.blksails.net/foo'' @ [CHR 0x20, CHR 0x0D]) #
     [''module pkg.blksails.net/other'', ''''] \<and>
   \<not> module_line (''// the module'' @ [CHR 0x0D]) \<and>
   blank [CHR 0x09, CHR 0x20] \<and> blank ''  '' \<and> blank [CHR 0x20, CHR 0x0D] \<and>
   tight ''pkg.blksails.net/foo'' \<and>
   parseModuleName indented_go_mod = ''pkg.blksails.net/foo'' \<and>
   parseModuleName (''require example.org/x v1.0.0'' @ nl @ ''module'' @ nl) = ''''"
proof -
  have lines: "Split indented_go_mod (CHR 0x0A) =
     [''// the module'' @ [CHR 0x0D]] @
     ([CHR 0x09, CHR 0x20] @ ''module '' @ ''  '' @ ''pkg.blksails.net/foo'' @ [CHR 0x20, CHR 0x0D]) #
     [''module pkg.blksails.net/other'', '''']"
    by code_simp
  have before: "\<not> module_line (''// the module'' @ [CHR 0x0D])"
    unfolding module_line_iff by code_simp
  have space: "[CHR 0x20] \<in> set white_space" "[CHR 0x09] \<in> set white_space"
    "[CHR 0x0D] \<in> set white_space"
    by (simp_all add: white_space_def)
  have a: "blank [CHR 0x09, CHR 0x20]"
    using blank_append [OF blank_white [OF space(2)] blank_white [OF space(1)]] by simp
  have b: "blank ''  ''"
    using blank_append [OF blank_white [OF space(1)] blank_white [OF space(1)]] by simp
  have c: "blank [CHR 0x20, CHR 0x0D]"
    using blank_append [OF blank_white [OF space(1)] blank_white [OF space(3)]] by simp
  have x: "tight ''pkg.blksails.net/foo''"
    by code_simp
  have other: "Split (''require example.org/x v1.0.0'' @ nl @ ''module'' @ nl) (CHR 0x0A) =
      [''require example.org/x v1.0.0'', ''module'', '''']"
    by code_simp
  have none: "\<not> module_line ''require example.org/x v1.0.0''" "\<not> module_line ''module''"
    "\<not> module_line ''''"
    unfolding module_line_iff by code_simp+
  note first = parseModuleName_first_module_line [of indented_go_mod
      "[''// the module'' @ [CHR 0x0D]]" "[CHR 0x09, CHR 0x20]" "''  ''" "''pkg.blksails.net/foo''"
      "[CHR 0x20, CHR 0x0D]" "[''module pkg.blksails.net/other'', '''']", THEN conjunct1]
  have found: "parseModuleName indented_go_mod = ''pkg.blksails.net/foo''"
    using lines before a b c x first by simp
  note second = parseModuleName_first_module_line
      [of "''require example.org/x v1.0.0'' @ nl @ ''module'' @ nl", THEN conjunct2, THEN conjunct1]
  have missing: "parseModuleName (''require example.org/x v1.0.0'' @ nl @ ''module'' @ nl) = ''''"
    using other none second by simp
  show ?thesis
    using lines before a b c x found missing by blast
qed

subsection \<open>Which repositories are kept\<close>

lemma Inl_caseD: "(case x of Inl a \<Rightarrow> a = b | Inr s \<Rightarrow> False) \<Longrightarrow> x = Inl b"
  by (cases x) simp_all

text \<open>
  Claim C5, as the code has it. A repository contributes records (to \<^verbatim>\<open>packages\<close>, and
  to the calls of \<^verbatim>\<open>generateHTML\<close>) if and only if its language is exactly \<^verbatim>\<open>Go\<close>, the
  listing of its root directory succeeds, and its \<^verbatim>\<open>go.mod\<close> is fetched and decoded and
  declares an identifier that starts with \<open>basePackage\<close>. The body of the loop ends in a
  panic exactly when the language is \<^verbatim>\<open>Go\<close>, the listing succeeds and the fetch of
  \<^verbatim>\<open>go.mod\<close> returns neither an error nor a file. In every other case but the failure of
  the listing, which is logged, the state is left as it was, the log included. An
  absent language and the language \<^verbatim>\<open>go\<close> do not match; the prefix itself and every
  extension of it pass the prefix check, the empty identifier does not.
\<close>

theorem repository_contributes_iff:
  "(\<exists>s'. repository esc w repo s = Inr s' \<and> rendered s' \<noteq> rendered s) =
     (GetLanguage repo = ''Go'' \<and>
      (\<exists>contents. GetContents_root w (GetName repo) = Inr contents) \<and>
      (\<exists>fileContent. GetContents_go_mod w (GetName repo) = Inr (Some (Inr fileContent)) \<and>
         HasPrefix (parseModuleName fileContent) basePackage))
   \<and> (\<exists>s'. repository esc w repo s = Inr s' \<and> packages s' \<noteq> packages s) =
     (GetLanguage repo = ''Go'' \<and>
      (\<exists>contents. GetContents_root w (GetName repo) = Inr contents) \<and>
      (\<exists>fileContent. GetContents_go_mod w (GetName repo) = Inr (Some (Inr fileContent)) \<and>
         HasPrefix (parseModuleName fileContent) basePackage))
   \<and> isl (repository esc w repo s) =
     (GetLanguage repo = ''Go'' \<and>
      (\<exists>contents. GetContents_root w (GetName repo) = Inr contents) \<and>
      GetContents_go_mod w (GetName repo) = Inr None)
   \<and> (repository esc w repo s = Inr s) =
     (\<not> (GetLanguage repo = ''Go'' \<and> (\<exists>err. GetContents_root w (GetName repo) = Inl err)) \<and>
      \<not> (GetLanguage repo = ''Go'' \<and>
         (\<exists>contents. GetContents_root w (GetName repo) = Inr contents) \<and>
         GetContents_go_mod w (GetName repo) = Inr None) \<and>
      \<not> (GetLanguage repo = ''Go'' \<and>
         (\<exists>contents. GetContents_root w (GetName repo) = Inr contents) \<and>
         (\<exists>fileContent. GetContents_go_mod w (GetName repo) = Inr (Some (Inr fileContent)) \<and>
            HasPrefix (parseModuleName fileContent) basePackage)))
   \<and> GetLanguage (repo\<lparr>repo_Language := None\<rparr>) \<noteq> ''Go''
   \<and> GetLanguage (repo\<lparr>repo_Language := Some ''go''\<rparr>) \<noteq> ''Go''
   \<and> HasPrefix basePackage basePackage
   \<and> HasPrefix (basePackage @ rest) basePackage
   \<and> \<not> HasPrefix '''' basePackage"
proof -
  have grows: "\<exists>s'. repository esc w repo s = Inr s' \<and> rendered s' \<noteq> rendered s \<and>
      packages s' \<noteq> packages s" if q: "qualifying w repo"
  proof -
    from q obtain contents fileContent where
      h: "GetLanguage repo = ''Go''" "GetContents_root w (GetName repo) = Inr contents"
        "GetContents_go_mod w (GetName repo) = Inr (Some (Inr fileContent))"
        "HasPrefix (parseModuleName fileContent) basePackage"
      by (auto simp: qualifying_iff)
    from repository_qualifying [OF h, of esc s]
    obtain s' where s': "repository esc w repo s = Inr s'"
      by blast
    from qualifying_records [OF q] have "registered w repo \<noteq> []" "emitted w repo \<noteq> []"
      by auto
    with repository_packages [OF s'] repository_rendered [OF s'] s' show ?thesis
      by auto
  qed
  have r: "(\<exists>s'. repository esc w repo s = Inr s' \<and> rendered s' \<noteq> rendered s) =
      qualifying w repo"
  proof
    assume "\<exists>s'. repository esc w repo s = Inr s' \<and> rendered s' \<noteq> rendered s"
    then obtain s' where "repository esc w repo s = Inr s'" "rendered s' \<noteq> rendered s"
      by blast
    with repository_rendered have "emitted w repo \<noteq> []"
      by fastforce
    then show "qualifying w repo"
      by (auto simp: emitted_def split: option.splits if_splits)
  next
    assume "qualifying w repo"
    from grows [OF this] show "\<exists>s'. repository esc w repo s = Inr s' \<and> rendered s' \<noteq> rendered s"
      by blast
  qed
  have p: "(\<exists>s'. repository esc w repo s = Inr s' \<and> packages s' \<noteq> packages s) =
      qualifying w repo"
  proof
    assume "\<exists>s'. repository esc w repo s = Inr s' \<and> packages s' \<noteq> packages s"
    then obtain s' where "repository esc w repo s = Inr s'" "packages s' \<noteq> packages s"
      by blast
    with repository_packages have "registered w repo \<noteq> []"
      by fastforce
    then show "qualifying w repo"
      by (auto simp: registered_def split: option.splits if_splits)
  next
    assume "qualifying w repo"
    from grows [OF this] show "\<exists>s'. repository esc w repo s = Inr s' \<and> packages s' \<noteq> packages s"
      by blast
  qed
  have a: "isl (repository esc w repo s) = panicking w repo"
    by (rule repository_aborts_iff)
  have u: "(repository esc w repo s = Inr s) =
     (\<not> (GetLanguage repo = ''Go'' \<and> (\<exists>err. GetContents_root w (GetName repo) = Inl err)) \<and>
      \<not> panicking w repo \<and> \<not> qualifying w repo)"
  proof (cases "qualifying w repo")
    case True
    from grows [OF True] show ?thesis
      using True by auto
  next
    case False
    have "State.logged (s\<lparr>logged := logged s @ [x]\<rparr>) \<noteq> State.logged s" for x
      by simp
    then have "s\<lparr>logged := logged s @ [x]\<rparr> \<noteq> s" for x
      by metis
    with False show ?thesis
      unfolding qualifying_iff panicking_iff
      by (auto simp: repository_def Let_def split: sum.splits option.splits)
  qed
  have "GetLanguage (repo\<lparr>repo_Language := None\<rparr>) \<noteq> ''Go''"
    "GetLanguage (repo\<lparr>repo_Language := Some ''go''\<rparr>) \<noteq> ''Go''"
    by (simp_all add: GetLanguage_def get_string_def)
  moreover have "HasPrefix basePackage basePackage" "HasPrefix (basePackage @ rest) basePackage"
    "\<not> HasPrefix '''' basePackage"
    by (simp_all add: HasPrefix_def basePackage_def)
  ultimately show ?thesis
    using r p a u unfolding qualifying_iff panicking_iff by blast
qed

text \<open>
  The two checks of the claim are not all the checks of the loop: a Go repository whose
  identifier has the prefix contributes nothing when the listing of its root directory
  fails.
\<close>

theorem listing_failure_counterexample:
  "GetLanguage foo = ''Go'' \<and>
   GetContents_go_mod no_listing (GetName foo) = Inr (Some (Inr foo_go_mod)) \<and>
   parseModuleName foo_go_mod = ''pkg.blksails.net/foo'' \<and>
   HasPrefix (parseModuleName foo_go_mod) basePackage \<and>
   (case repository plain no_listing foo init of Inl a \<Rightarrow> False
    | Inr s' \<Rightarrow> packages s' = [] \<and> rendered s' = [] \<and>
        logged s' = [''Error getting contents for foo: 502 Bad Gateway'']) \<and>
   (case main plain no_listing of Inl a \<Rightarrow> False
    | Inr final \<Rightarrow> packages final = [] \<and> rendered final = [])"
  by code_simp

text \<open>
  The failures of the fetch of \<^verbatim>\<open>go.mod\<close> that the loop body tests: an error of the call,
  a content that does not decode, an identifier without the prefix. The repository is
  skipped, and the run ends as the run on the listing without it.
\<close>

lemma tested_failures_skip:
  assumes "(\<exists>err. GetContents_go_mod w (GetName repo) = Inl err) \<or>
         (\<exists>err. GetContents_go_mod w (GetName repo) = Inr (Some (Inl err))) \<or>
         (\<exists>fileContent. GetContents_go_mod w (GetName repo) = Inr (Some (Inr fileContent)) \<and>
            \<not> HasPrefix (parseModuleName fileContent) basePackage)"
  shows "\<exists>s'. repository esc w repo s = Inr s' \<and> same_output s' s"
    and "ListByOrg w = Inr (before @ repo # after) \<Longrightarrow>
      rel_sum (=) same_output (main esc w) (main esc (w\<lparr>ListByOrg := Inr (before @ after)\<rparr>))"
proof -
  from assms have nq: "\<not> qualifying w repo" and np: "\<not> panicking w repo"
    by (auto simp: qualifying_iff panicking_iff)
  show "\<exists>s'. repository esc w repo s = Inr s' \<and> same_output s' s"
    by (rule repository_skipped [OF nq np])
  show "rel_sum (=) same_output (main esc w) (main esc (w\<lparr>ListByOrg := Inr (before @ after)\<rparr>))"
    if "ListByOrg w = Inr (before @ repo # after)"
    by (rule main_without_skipped [OF that nq np])
qed

text \<open>
  Claim C6. The fetch of \<^verbatim>\<open>go.mod\<close> can return neither an error nor a file: it does so
  when \<^verbatim>\<open>go.mod\<close> is a directory. The loop body (main.go, lines 62 to 67) tests the
  error only, and reads the content of the missing file: the run ends in a panic at the
  repository \<^verbatim>\<open>bar\<close>, before the repository \<^verbatim>\<open>foo\<close> and before the index page, where the
  run on the listing without \<^verbatim>\<open>bar\<close> completes with the record and the pages of \<^verbatim>\<open>foo\<close>.
\<close>

theorem manifest_directory_stops_run:
  "ListByOrg go_mod_directory = Inr [bar, foo] \<and>
   GetLanguage bar = ''Go'' \<and>
   GetContents_root go_mod_directory (GetName bar) = Inr foo_listing \<and>
   GetContents_go_mod go_mod_directory (GetName bar) = Inr None \<and>
   repository plain go_mod_directory bar init = Inl (Panic nil_dereference) \<and>
   repositories plain go_mod_directory [bar, foo] init = Inl (Panic nil_dereference) \<and>
   main plain go_mod_directory = Inl (Panic nil_dereference) \<and>
   (case main plain (go_mod_directory\<lparr>ListByOrg := Inr [foo]\<rparr>) of
      Inl a \<Rightarrow> False
    | Inr final \<Rightarrow>
        packages final = [root_record foo ''pkg.blksails.net/foo''] \<and>
        rendered final =
          [root_record foo ''pkg.blksails.net/foo'',
           \<lparr>ImportPath = ''pkg.blksails.net/foo/sub'',
            RepoURL = ''https://github.com/blksails/foo'', Description = ''Foo''\<rparr>] \<and>
        files final ''public/index.html'' =
          Some (index_page plain [root_record foo ''pkg.blksails.net/foo'']) \<and>
        files final ''public/foo/index.html'' =
          Some (import_page plain (root_record foo ''pkg.blksails.net/foo'')))"
proof -
  have "case repository plain go_mod_directory bar init of
      Inl a \<Rightarrow> a = Panic nil_dereference | Inr s \<Rightarrow> False"
    by code_simp
  then have body: "repository plain go_mod_directory bar init = Inl (Panic nil_dereference)"
    by (rule Inl_caseD)
  have "case repositories plain go_mod_directory [bar, foo] init of
      Inl a \<Rightarrow> a = Panic nil_dereference | Inr s \<Rightarrow> False"
    by code_simp
  then have loop: "repositories plain go_mod_directory [bar, foo] init = Inl (Panic nil_dereference)"
    by (rule Inl_caseD)
  have "case main plain go_mod_directory of
      Inl a \<Rightarrow> a = Panic nil_dereference | Inr s \<Rightarrow> False"
    by code_simp
  then have run: "main plain go_mod_directory = Inl (Panic nil_dereference)"
    by (rule Inl_caseD)
  have inputs: "ListByOrg go_mod_directory = Inr [bar, foo] \<and>
      GetLanguage bar = ''Go'' \<and>
      GetContents_root go_mod_directory (GetName bar) = Inr foo_listing \<and>
      GetContents_go_mod go_mod_directory (GetName bar) = Inr None"
    by code_simp
  have without: "case main plain (go_mod_directory\<lparr>ListByOrg := Inr [foo]\<rparr>) of
      Inl a \<Rightarrow> False
    | Inr final \<Rightarrow>
        packages final = [root_record foo ''pkg.blksails.net/foo''] \<and>
        rendered final =
          [root_record foo ''pkg.blksails.net/foo'',
           \<lparr>ImportPath = ''pkg.blksails.net/foo/sub'',
            RepoURL = ''https://github.com/blksails/foo'', Description = ''Foo''\<rparr>] \<and>
        files final ''public/index.html'' =
          Some (index_page plain [root_record foo ''pkg.blksails.net/foo'']) \<and>
        files final ''public/foo/index.html'' =
          Some (import_page plain (root_record foo ''pkg.blksails.net/foo''))"
    by code_simp
  from inputs body loop run without show ?thesis
    by blast
qed

subsection \<open>Errors\<close>

text \<open>
  Claim C7. The run ends before its last statement exactly in three cases: the token is
  absent or empty, the listing of the repositories fails, or the listing holds a Go
  repository whose root directory is listed and whose \<^verbatim>\<open>go.mod\<close> is fetched with neither
  an error nor a file. The third case is the panic of the loop body; it occurs in the
  world \<open>go_mod_directory\<close>, which has the token and the listing.
\<close>

theorem main_aborts_iff:
  "(isl (main esc w) \<longleftrightarrow>
      Getenv w ''GITHUB_TOKEN'' = '''' \<or> isl (ListByOrg w) \<or>
      (\<exists>repos. ListByOrg w = Inr repos \<and>
         (\<exists>repo \<in> set repos. GetLanguage repo = ''Go'' \<and>
            (\<exists>contents. GetContents_root w (GetName repo) = Inr contents) \<and>
            GetContents_go_mod w (GetName repo) = Inr None))) \<and>
   (main esc w = Inl (Fatal ''GITHUB_TOKEN environment variable is required'') \<longleftrightarrow>
      Getenv w ''GITHUB_TOKEN'' = '''') \<and>
   ((\<exists>err. main esc w = Inl (Fatal (''Error listing repositories: '' @ err))) \<longleftrightarrow>
      Getenv w ''GITHUB_TOKEN'' \<noteq> '''' \<and> isl (ListByOrg w)) \<and>
   (main esc w = Inl (Panic nil_dereference) \<longleftrightarrow>
      Getenv w ''GITHUB_TOKEN'' \<noteq> '''' \<and>
      (\<exists>repos. ListByOrg w = Inr repos \<and>
         (\<exists>repo \<in> set repos. GetLanguage repo = ''Go'' \<and>
            (\<exists>contents. GetContents_root w (GetName repo) = Inr contents) \<and>
            GetContents_go_mod w (GetName repo) = Inr None))) \<and>
   Getenv go_mod_directory ''GITHUB_TOKEN'' = ''token'' \<and>
   ListByOrg go_mod_directory = Inr [bar, foo] \<and>
   main plain go_mod_directory = Inl (Panic nil_dereference)"
proof -
  have panic: "(\<exists>repo \<in> set repos. GetLanguage repo = ''Go'' \<and>
            (\<exists>contents. GetContents_root w (GetName repo) = Inr contents) \<and>
            GetContents_go_mod w (GetName repo) = Inr None) =
      isl (repositories esc w repos init)" for repos
    unfolding repositories_aborts_iff by (simp add: panicking_iff)
  have inl: "repositories esc w repos init = Inl a \<longleftrightarrow>
      isl (repositories esc w repos init) \<and> a = Panic nil_dereference" for repos a
    using repositories_panic [of esc w repos init] by (cases "repositories esc w repos init") auto
  have fatal: "''Error listing repositories: '' @ err \<noteq>
      ''GITHUB_TOKEN environment variable is required''" for err
    by simp
  have 1: "isl (main esc w) \<longleftrightarrow>
      Getenv w ''GITHUB_TOKEN'' = '''' \<or> isl (ListByOrg w) \<or>
      (\<exists>repos. ListByOrg w = Inr repos \<and> isl (repositories esc w repos init))"
    by (auto simp: main_cases split: sum.splits)
  have 2: "main esc w = Inl (Fatal ''GITHUB_TOKEN environment variable is required'') \<longleftrightarrow>
      Getenv w ''GITHUB_TOKEN'' = ''''"
    using inl by (auto simp: main_cases nil_dereference_def split: sum.splits)
  have 3: "(\<exists>err. main esc w = Inl (Fatal (''Error listing repositories: '' @ err))) \<longleftrightarrow>
      Getenv w ''GITHUB_TOKEN'' \<noteq> '''' \<and> isl (ListByOrg w)"
    using inl by (auto simp: main_cases split: sum.splits)
  have 4: "main esc w = Inl (Panic nil_dereference) \<longleftrightarrow>
      Getenv w ''GITHUB_TOKEN'' \<noteq> '''' \<and>
      (\<exists>repos. ListByOrg w = Inr repos \<and> isl (repositories esc w repos init))"
    using inl by (auto simp: main_cases split: sum.splits)
  have "case main plain go_mod_directory of
      Inl a \<Rightarrow> a = Panic nil_dereference | Inr s \<Rightarrow> False"
    by code_simp
  then have "main plain go_mod_directory = Inl (Panic nil_dereference)"
    by (rule Inl_caseD)
  moreover have "Getenv go_mod_directory ''GITHUB_TOKEN'' = ''token'' \<and>
      ListByOrg go_mod_directory = Inr [bar, foo]"
    by code_simp
  ultimately have 5: "Getenv go_mod_directory ''GITHUB_TOKEN'' = ''token'' \<and>
      ListByOrg go_mod_directory = Inr [bar, foo] \<and>
      main plain go_mod_directory = Inl (Panic nil_dereference)"
    by blast
  show ?thesis
    unfolding panic using 1 2 3 4 5 by blast
qed

subsection \<open>The renderers\<close>

text \<open>
  Claim C8. The document of the import page is a function of the record, and the
  document of the index page a function of the records: equal inputs give equal bytes,
  and two calls that succeed, in any two worlds and states, leave the same bytes in the
  same file.
\<close>

theorem rendering_deterministic:
  assumes "pkg = pkg'" and "pkgs = pkgs'"
  shows "import_page esc pkg = import_page esc pkg' \<and>
     index_page esc pkgs = index_page esc pkgs' \<and>
     (fst (generateHTML esc w pkg s) = None \<and> fst (generateHTML esc w' pkg' s') = None \<longrightarrow>
        (\<exists>path doc. files (snd (generateHTML esc w pkg s)) path = Some doc \<and>
           files (snd (generateHTML esc w' pkg' s')) path = Some doc \<and> doc = import_page esc pkg)) \<and>
     (fst (generateIndexHTML esc w pkgs s) = None \<and>
      fst (generateIndexHTML esc w' pkgs' s') = None \<longrightarrow>
        (\<exists>doc. files (snd (generateIndexHTML esc w pkgs s)) ''public/index.html'' = Some doc \<and>
           files (snd (generateIndexHTML esc w' pkgs' s')) ''public/index.html'' = Some doc \<and>
           doc = index_page esc pkgs))"
  using assms generateHTML_written generateIndexHTML_written by blast

theorem rendering_deterministic_witness:
  "fst (generateHTML plain scenario (root_record foo ''pkg.blksails.net/foo'') init) = None \<and>
   fst (generateHTML plain scenario (root_record foo ''pkg.blksails.net/foo'')
          (init\<lparr>logged := [''earlier'']\<rparr>)) = None \<and>
   (\<exists>path doc.
      files (snd (generateHTML plain scenario (root_record foo ''pkg.blksails.net/foo'') init)) path
        = Some doc \<and>
      files (snd (generateHTML plain scenario (root_record foo ''pkg.blksails.net/foo'')
          (init\<lparr>logged := [''earlier'']\<rparr>))) path = Some doc \<and>
      doc = import_page plain (root_record foo ''pkg.blksails.net/foo''))"
proof -
  let ?pkg = "root_record foo ''pkg.blksails.net/foo''"
  have ok: "fst (generateHTML plain scenario ?pkg init) = None"
    "fst (generateHTML plain scenario ?pkg (init\<lparr>logged := [''earlier'']\<rparr>)) = None"
    by (simp_all add: generateHTML_def scenario_def Let_def init_def)
  with rendering_deterministic [of ?pkg ?pkg "[]" "[]" plain scenario init scenario
      "init\<lparr>logged := [''earlier'']\<rparr>"]
  show ?thesis by simp
qed

subsection \<open>Failures of a write\<close>

lemma generateIndexHTML_logged [simp]:
  "logged (snd (generateIndexHTML esc w pkgs s)) = logged s"
  by (simp add: generateIndexHTML_def split: write_outcome.splits)

lemma repository_logged_prefix:
  "repository esc w repo s = Inr s' \<Longrightarrow> prefix (logged s) (logged s')"
proof -
  assume r: "repository esc w repo s = Inr s'"
  have step: "prefix (logged s)
      (logged (subdirectories esc w m repo contents (log_error msg (generateHTML esc w pkg
         (s\<lparr>packages := packages s @ [pkg]\<rparr>)))))" for m contents msg pkg
  proof -
    have "prefix (logged s)
        (logged (log_error msg (generateHTML esc w pkg (s\<lparr>packages := packages s @ [pkg]\<rparr>))))"
      by (simp add: log_error_logged)
    also have "prefix \<dots> (logged (subdirectories esc w m repo contents
        (log_error msg (generateHTML esc w pkg (s\<lparr>packages := packages s @ [pkg]\<rparr>)))))"
      by (rule subdirectories_logged_prefix)
    finally show ?thesis .
  qed
  from r show ?thesis
    using step
    by (auto simp: repository_def Let_def split: if_splits sum.splits option.splits)
qed

lemma repositories_logged_prefix:
  "repositories esc w repos s = Inr s' \<Longrightarrow> prefix (logged s) (logged s')"
proof (induction repos arbitrary: s)
  case Nil
  then show ?case by simp
next
  case (Cons repo repos)
  from Cons.prems obtain t where t: "repository esc w repo s = Inr t"
    and rest: "repositories esc w repos t = Inr s'"
    by (auto split: sum.splits)
  have "prefix (logged s) (logged t)"
    by (rule repository_logged_prefix [OF t])
  also have "prefix (logged t) (logged s')"
    by (rule Cons.IH [OF rest])
  finally show ?case .
qed

lemma index_page_item:
  "index_page esc (xs @ pkg # ys) =
     (index_head @ concat (map (index_item esc) xs)) @ index_item esc pkg @
     (concat (map (index_item esc) ys) @ index_tail)"
  by (simp add: index_page_def)

text \<open>
  Claim C9. The root record of a qualifying repository is appended before
  \<^verbatim>\<open>generateHTML\<close> is called, and the error of the call is only logged. When the call
  fails in the state \<open>s\<close>, the body of the loop ends with the record appended to
  \<^verbatim>\<open>packages\<close> and the message in the log. When \<open>s\<close> is the state that the run reaches
  before this repository, and no later repository ends the run in a panic, the run
  completes: the record is in the final \<^verbatim>\<open>packages\<close>, the message in the final log, and,
  when the index page is written, the file \<^verbatim>\<open>public/index.html\<close> holds the item of the
  record: the link to the repository, the import path, the description if there is one,
  and the \<^verbatim>\<open>go get\<close> line.
\<close>

theorem root_record_survives_render_failure:
  assumes "GetLanguage repo = ''Go''"
    and "GetContents_root w (GetName repo) = Inr contents"
    and "GetContents_go_mod w (GetName repo) = Inr (Some (Inr fileContent))"
    and "HasPrefix (parseModuleName fileContent) basePackage"
    and "fst (generateHTML esc w (root_record repo (parseModuleName fileContent))
           (s\<lparr>packages := packages s @ [root_record repo (parseModuleName fileContent)]\<rparr>))
         = Some err"
  shows "(\<exists>s'. repository esc w repo s = Inr s' \<and>
        packages s' = packages s @ [root_record repo (parseModuleName fileContent)] \<and>
        (''Error generating HTML for '' @ parseModuleName fileContent @ '': '' @ err)
          \<in> set (logged s')) \<and>
     (\<forall>before after.
        Getenv w ''GITHUB_TOKEN'' \<noteq> '''' \<and> ListByOrg w = Inr (before @ repo # after) \<and>
        repositories esc w before init = Inr s \<and> (\<forall>r \<in> set after. \<not> panicking w r) \<longrightarrow>
        (\<exists>final. main esc w = Inr final \<and>
           root_record repo (parseModuleName fileContent) \<in> set (packages final) \<and>
           (''Error generating HTML for '' @ parseModuleName fileContent @ '': '' @ err)
             \<in> set (logged final) \<and>
           (index_io w = Written \<longrightarrow>
              (\<exists>above below. files final ''public/index.html'' =
                 Some (above @
                   nl @ ''        <div class=\"package-item\">'' @ nl @
                   ''            <h3><a href=\"'' @ urlescaper esc (GetHTMLURL repo) @ ''\">''
                     @ htmlescaper esc (parseModuleName fileContent) @ ''</a></h3>'' @ nl @
                   ''            '' @
                   (if GetDescription repo = '''' then ''''
                    else nl @ ''            <p>'' @ htmlescaper esc (GetDescription repo)
                      @ ''</p>'' @ nl @ ''            '') @ nl @
                   ''            <p><code>go get '' @ htmlescaper esc (parseModuleName fileContent)
                     @ ''</code></p>'' @ nl @
                   ''        </div>'' @ nl @ ''        '' @ below)))))"
proof (intro conjI allI impI)
  let ?m = "parseModuleName fileContent"
  let ?root = "root_record repo ?m"
  let ?s1 = "s\<lparr>packages := packages s @ [?root]\<rparr>"
  let ?msg = "''Error generating HTML for '' @ ?m @ '': ''"
  let ?s' = "subdirectories esc w ?m repo contents (log_error ?msg (generateHTML esc w ?root ?s1))"
  note q = assms(1-4)
  have body: "repository esc w repo s = Inr ?s'"
    by (rule repository_qualifying [OF q])
  have pk: "packages ?s' = packages s @ [?root]"
    by simp
  have "?msg @ err \<in> set (logged (log_error ?msg (generateHTML esc w ?root ?s1)))"
    using assms(5) by (simp add: log_error_logged)
  moreover have "prefix (logged (log_error ?msg (generateHTML esc w ?root ?s1))) (logged ?s')"
    by (rule subdirectories_logged_prefix)
  ultimately have "?msg @ err \<in> set (logged ?s')"
    using set_mono_prefix by blast
  then have lg: "''Error generating HTML for '' @ ?m @ '': '' @ err \<in> set (logged ?s')"
    by simp
  from body pk lg
  show "\<exists>s'. repository esc w repo s = Inr s' \<and> packages s' = packages s @ [?root] \<and>
      ''Error generating HTML for '' @ ?m @ '': '' @ err \<in> set (logged s')"
    by blast
  fix before after
  assume run: "Getenv w ''GITHUB_TOKEN'' \<noteq> '''' \<and> ListByOrg w = Inr (before @ repo # after) \<and>
      repositories esc w before init = Inr s \<and> (\<forall>r \<in> set after. \<not> panicking w r)"
  then have token: "Getenv w ''GITHUB_TOKEN'' \<noteq> ''''"
    and repos: "ListByOrg w = Inr (before @ repo # after)"
    and reached: "repositories esc w before init = Inr s"
    and quiet: "\<not> (\<exists>r \<in> set after. panicking w r)"
    by simp_all
  from quiet have "\<not> isl (repositories esc w after ?s')"
    unfolding repositories_aborts_iff .
  then obtain t where t: "repositories esc w after ?s' = Inr t"
    by (cases "repositories esc w after ?s'") simp_all
  have "repositories esc w (before @ repo # after) init = repositories esc w (repo # after) s"
    by (simp only: repositories_append reached sum.case)
  also have "\<dots> = repositories esc w after ?s'"
    by (simp only: repositories.simps body sum.case)
  also note t
  finally have loop: "repositories esc w (before @ repo # after) init = Inr t" .
  define final where
    "final = log_error ''Error generating index HTML: '' (generateIndexHTML esc w (packages t) t)"
  have final: "main esc w = Inr final"
    using token by (simp add: main_cases repos loop final_def)
  from repositories_packages [OF t] have "?root \<in> set (packages t)"
    by simp
  then have member: "?root \<in> set (packages final)"
    by (simp add: final_def)
  have "prefix (logged ?s') (logged t)"
    by (rule repositories_logged_prefix [OF t])
  also have "prefix (logged t) (logged final)"
    by (simp add: final_def log_error_logged)
  finally have "set (logged ?s') \<subseteq> set (logged final)"
    by (rule set_mono_prefix)
  with lg have message: "''Error generating HTML for '' @ ?m @ '': '' @ err \<in> set (logged final)"
    by blast
  have item: "\<exists>above below. files final ''public/index.html'' =
        Some (above @
          nl @ ''        <div class=\"package-item\">'' @ nl @
          ''            <h3><a href=\"'' @ urlescaper esc (GetHTMLURL repo) @ ''\">''
            @ htmlescaper esc ?m @ ''</a></h3>'' @ nl @
          ''            '' @
          (if GetDescription repo = '''' then ''''
           else nl @ ''            <p>'' @ htmlescaper esc (GetDescription repo)
             @ ''</p>'' @ nl @ ''            '') @ nl @
          ''            <p><code>go get '' @ htmlescaper esc ?m @ ''</code></p>'' @ nl @
          ''        </div>'' @ nl @ ''        '' @ below)"
    if written: "index_io w = Written"
  proof -
    from member obtain xs ys where split: "packages final = xs @ ?root # ys"
      by (auto dest: split_list)
    have shape: "index_item esc ?root =
          nl @ ''        <div class=\"package-item\">'' @ nl @
          ''            <h3><a href=\"'' @ urlescaper esc (GetHTMLURL repo) @ ''\">''
            @ htmlescaper esc ?m @ ''</a></h3>'' @ nl @
          ''            '' @
          (if GetDescription repo = '''' then ''''
           else nl @ ''            <p>'' @ htmlescaper esc (GetDescription repo)
             @ ''</p>'' @ nl @ ''            '') @ nl @
          ''            <p><code>go get '' @ htmlescaper esc ?m @ ''</code></p>'' @ nl @
          ''        </div>'' @ nl @ ''        ''"
      by (simp add: index_item_def root_record_def nl_def)
    define above where "above = index_head @ concat (map (index_item esc) xs)"
    define below where "below = concat (map (index_item esc) ys) @ index_tail"
    have "files final ''public/index.html'' = Some (index_page esc (packages final))"
      by (rule main_packages(3) [OF final repos written])
    also have "index_page esc (packages final) = above @ index_item esc ?root @ below"
      unfolding split above_def below_def by (rule index_page_item)
    finally have "files final ''public/index.html'' = Some (above @ index_item esc ?root @ below)" .
    then have "files final ''public/index.html'' =
        Some (above @
          nl @ ''        <div class=\"package-item\">'' @ nl @
          ''            <h3><a href=\"'' @ urlescaper esc (GetHTMLURL repo) @ ''\">''
            @ htmlescaper esc ?m @ ''</a></h3>'' @ nl @
          ''            '' @
          (if GetDescription repo = '''' then ''''
           else nl @ ''            <p>'' @ htmlescaper esc (GetDescription repo)
             @ ''</p>'' @ nl @ ''            '') @ nl @
          ''            <p><code>go get '' @ htmlescaper esc ?m @ ''</code></p>'' @ nl @
          ''        </div>'' @ nl @ ''        '' @ below)"
      unfolding shape by (simp only: append_assoc)
    then show ?thesis
      by - (rule exI, rule exI, assumption)
  qed
  from final member message item
  show "\<exists>final. main esc w = Inr final \<and> ?root \<in> set (packages final) \<and>
      ''Error generating HTML for '' @ ?m @ '': '' @ err \<in> set (logged final) \<and>
      (index_io w = Written \<longrightarrow>
         (\<exists>above below. files final ''public/index.html'' =
            Some (above @
              nl @ ''        <div class=\"package-item\">'' @ nl @
              ''            <h3><a href=\"'' @ urlescaper esc (GetHTMLURL repo) @ ''\">''
                @ htmlescaper esc ?m @ ''</a></h3>'' @ nl @
              ''            '' @
              (if GetDescription repo = '''' then ''''
               else nl @ ''            <p>'' @ htmlescaper esc (GetDescription repo)
                 @ ''</p>'' @ nl @ ''            '') @ nl @
              ''            <p><code>go get '' @ htmlescaper esc ?m @ ''</code></p>'' @ nl @
              ''        </div>'' @ nl @ ''        '' @ below)))"
    by blast
qed

theorem root_record_survives_render_failure_witness:
  "GetLanguage foo = ''Go'' \<and>
   GetContents_root no_import_pages (GetName foo) = Inr foo_listing \<and>
   GetContents_go_mod no_import_pages (GetName foo) = Inr (Some (Inr foo_go_mod)) \<and>
   parseModuleName foo_go_mod = ''pkg.blksails.net/foo'' \<and>
   fst (generateHTML plain no_import_pages (root_record foo ''pkg.blksails.net/foo'')
          (init\<lparr>packages := packages init @ [root_record foo ''pkg.blksails.net/foo'']\<rparr>))
     = Some ''failed to create file: permission denied'' \<and>
   Getenv no_import_pages ''GITHUB_TOKEN'' = ''token'' \<and>
   ListByOrg no_import_pages = Inr [foo] \<and>
   index_io no_import_pages = Written \<and>
   (\<exists>s'. repository plain no_import_pages foo init = Inr s' \<and>
      packages s' = [root_record foo ''pkg.blksails.net/foo''] \<and>
      ''Error generating HTML for pkg.blksails.net/foo: failed to create file: permission denied''
        \<in> set (logged s')) \<and>
   (\<exists>final. main plain no_import_pages = Inr final \<and>
      root_record foo ''pkg.blksails.net/foo'' \<in> set (packages final) \<and>
      ''Error generating HTML for pkg.blksails.net/foo: failed to create file: permission denied''
        \<in> set (logged final) \<and>
      (\<exists>above below. files final ''public/index.html'' =
         Some (above @
           nl @ ''        <div class=\"package-item\">'' @ nl @
           ''            <h3><a href=\"https://github.com/blksails/foo\">pkg.blksails.net/foo</a></h3>'' @ nl @
           ''            '' @ nl @
           ''            <p>Foo</p>'' @ nl @
           ''            '' @ nl @
           ''            <p><code>go get pkg.blksails.net/foo</code></p>'' @ nl @
           ''        </div>'' @ nl @ ''        '' @ below))) \<and>
   (case main plain no_import_pages of
      Inl a \<Rightarrow> False
    | Inr final \<Rightarrow>
        packages final = [root_record foo ''pkg.blksails.net/foo''] \<and>
        logged final =
          [''Error generating HTML for pkg.blksails.net/foo: failed to create file: permission denied'',
           ''Error generating HTML for pkg.blksails.net/foo/sub: failed to create file: permission denied''] \<and>
        files final ''public/foo/index.html'' = None \<and>
        files final ''public/foo/sub/index.html'' = None \<and>
        files final ''public/index.html'' =
          Some (index_head @
            nl @ ''        <div class=\"package-item\">'' @ nl @
            ''            <h3><a href=\"https://github.com/blksails/foo\">pkg.blksails.net/foo</a></h3>'' @ nl @
            ''            '' @ nl @
            ''            <p>Foo</p>'' @ nl @
            ''            '' @ nl @
            ''            <p><code>go get pkg.blksails.net/foo</code></p>'' @ nl @
            ''        </div>'' @ nl @ ''        '' @ index_tail))"
proof -
  have h: "GetLanguage foo = ''Go''"
    "GetContents_root no_import_pages (GetName foo) = Inr foo_listing"
    "GetContents_go_mod no_import_pages (GetName foo) = Inr (Some (Inr foo_go_mod))"
    "HasPrefix (parseModuleName foo_go_mod) basePackage"
    by code_simp+
  have m: "parseModuleName foo_go_mod = ''pkg.blksails.net/foo''"
    by code_simp
  have fails: "fst (generateHTML plain no_import_pages (root_record foo (parseModuleName foo_go_mod))
          (init\<lparr>packages := packages init @ [root_record foo (parseModuleName foo_go_mod)]\<rparr>))
     = Some ''failed to create file: permission denied''"
    by code_simp
  have world: "Getenv no_import_pages ''GITHUB_TOKEN'' = ''token''"
    "ListByOrg no_import_pages = Inr [foo]" "index_io no_import_pages = Written"
    by (simp_all add: Getenv_def no_import_pages_def scenario_def)
  have run: "Getenv no_import_pages ''GITHUB_TOKEN'' \<noteq> '''' \<and>
      ListByOrg no_import_pages = Inr ([] @ foo # []) \<and>
      repositories plain no_import_pages [] init = Inr init \<and>
      (\<forall>r \<in> set []. \<not> panicking no_import_pages r)"
    using world by simp
  have shape: "GetHTMLURL foo = ''https://github.com/blksails/foo''" "GetDescription foo = ''Foo''"
    "urlescaper plain = (\<lambda>s. s)" "htmlescaper plain = (\<lambda>s. s)"
    by (simp_all add: GetHTMLURL_def GetDescription_def get_string_def foo_def plain_def)
  note r = root_record_survives_render_failure [OF h fails, unfolded m]
  have a: "\<exists>s'. repository plain no_import_pages foo init = Inr s' \<and>
      packages s' = [root_record foo ''pkg.blksails.net/foo''] \<and>
      ''Error generating HTML for pkg.blksails.net/foo: failed to create file: permission denied''
        \<in> set (logged s')"
    using conjunct1 [OF r] by (simp add: init_def)
  from conjunct2 [OF r] run world(3)
  have "\<exists>final. main plain no_import_pages = Inr final \<and>
      root_record foo ''pkg.blksails.net/foo'' \<in> set (packages final) \<and>
      (''Error generating HTML for '' @ ''pkg.blksails.net/foo'' @ '': '' @
         ''failed to create file: permission denied'') \<in> set (logged final) \<and>
      (\<exists>above below. files final ''public/index.html'' =
         Some (above @
           nl @ ''        <div class=\"package-item\">'' @ nl @
           ''            <h3><a href=\"'' @ urlescaper plain (GetHTMLURL foo) @ ''\">''
             @ htmlescaper plain ''pkg.blksails.net/foo'' @ ''</a></h3>'' @ nl @
           ''            '' @
           (if GetDescription foo = '''' then ''''
            else nl @ ''            <p>'' @ htmlescaper plain (GetDescription foo)
              @ ''</p>'' @ nl @ ''            '') @ nl @
           ''            <p><code>go get '' @ htmlescaper plain ''pkg.blksails.net/foo''
             @ ''</code></p>'' @ nl @
           ''        </div>'' @ nl @ ''        '' @ below))"
    by blast
  then have b: "\<exists>final. main plain no_import_pages = Inr final \<and>
      root_record foo ''pkg.blksails.net/foo'' \<in> set (packages final) \<and>
      ''Error generating HTML for pkg.blksails.net/foo: failed to create file: permission denied''
        \<in> set (logged final) \<and>
      (\<exists>above below. files final ''public/index.html'' =
         Some (above @
           nl @ ''        <div class=\"package-item\">'' @ nl @
           ''            <h3><a href=\"https://github.com/blksails/foo\">pkg.blksails.net/foo</a></h3>'' @ nl @
           ''            '' @ nl @
           ''            <p>Foo</p>'' @ nl @
           ''            '' @ nl @
           ''            <p><code>go get pkg.blksails.net/foo</code></p>'' @ nl @
           ''        </div>'' @ nl @ ''        '' @ below))"
    by (simp add: shape)
  have c: "case main plain no_import_pages of
      Inl a \<Rightarrow> False
    | Inr final \<Rightarrow>
        packages final = [root_record foo ''pkg.blksails.net/foo''] \<and>
        logged final =
          [''Error generating HTML for pkg.blksails.net/foo: failed to create file: permission denied'',
           ''Error generating HTML for pkg.blksails.net/foo/sub: failed to create file: permission denied''] \<and>
        files final ''public/foo/index.html'' = None \<and>
        files final ''public/foo/sub/index.html'' = None \<and>
        files final ''public/index.html'' =
          Some (index_head @
            nl @ ''        <div class=\"package-item\">'' @ nl @
            ''            <h3><a href=\"https://github.com/blksails/foo\">pkg.blksails.net/foo</a></h3>'' @ nl @
            ''            '' @ nl @
            ''            <p>Foo</p>'' @ nl @
            ''            '' @ nl @
            ''            <p><code>go get pkg.blksails.net/foo</code></p>'' @ nl @
            ''        </div>'' @ nl @ ''        '' @ index_tail)"
    by code_simp
  show ?thesis
    by (intro conjI h(1-3) m fails [unfolded m] world a b c)
qed

subsection \<open>The description\<close>

text \<open>
  Claim C10. Two records with the same import path and URL have the same import page,
  and \<^verbatim>\<open>generateHTML\<close> returns the same error and leaves the same files for both. On the
  index page the description stands in its own paragraph when it is not empty, and the
  paragraph is left out when it is empty.
\<close>

theorem description_only_on_index:
  "(ImportPath p = ImportPath q \<and> RepoURL p = RepoURL q \<longrightarrow>
      import_page esc p = import_page esc q \<and>
      fst (generateHTML esc w p s) = fst (generateHTML esc w q s) \<and>
      files (snd (generateHTML esc w p s)) = files (snd (generateHTML esc w q s))) \<and>
   (Description p = '''' \<longrightarrow>
      index_item esc p =
        nl @ ''        <div class=\"package-item\">'' @ nl @
        ''            <h3><a href=\"'' @ urlescaper esc (RepoURL p) @ ''\">''
          @ htmlescaper esc (ImportPath p) @ ''</a></h3>'' @ nl @
        ''            '' @ nl @
        ''            <p><code>go get '' @ htmlescaper esc (ImportPath p) @ ''</code></p>'' @ nl @
        ''        </div>'' @ nl @ ''        '') \<and>
   (Description p \<noteq> '''' \<longrightarrow>
      index_item esc p =
        nl @ ''        <div class=\"package-item\">'' @ nl @
        ''            <h3><a href=\"'' @ urlescaper esc (RepoURL p) @ ''\">''
          @ htmlescaper esc (ImportPath p) @ ''</a></h3>'' @ nl @
        ''            '' @ nl @
        ''            <p>'' @ htmlescaper esc (Description p) @ ''</p>'' @ nl @
        ''            '' @ nl @
        ''            <p><code>go get '' @ htmlescaper esc (ImportPath p) @ ''</code></p>'' @ nl @
        ''        </div>'' @ nl @ ''        '')"
proof (intro conjI impI)
  assume eq: "ImportPath p = ImportPath q \<and> RepoURL p = RepoURL q"
  then show doc: "import_page esc p = import_page esc q"
    by (simp add: import_page_def)
  from eq doc show "fst (generateHTML esc w p s) = fst (generateHTML esc w q s)"
    by (simp add: generateHTML_def Let_def split: sum.splits write_outcome.splits)
  from eq doc show "files (snd (generateHTML esc w p s)) = files (snd (generateHTML esc w q s))"
    by (simp add: generateHTML_def Let_def split: sum.splits write_outcome.splits)
next
  assume "Description p = ''''"
  then show "index_item esc p =
        nl @ ''        <div class=\"package-item\">'' @ nl @
        ''            <h3><a href=\"'' @ urlescaper esc (RepoURL p) @ ''\">''
          @ htmlescaper esc (ImportPath p) @ ''</a></h3>'' @ nl @
        ''            '' @ nl @
        ''            <p><code>go get '' @ htmlescaper esc (ImportPath p) @ ''</code></p>'' @ nl @
        ''        </div>'' @ nl @ ''        ''"
    by (simp add: index_item_def nl_def)
next
  assume "Description p \<noteq> ''''"
  then show "index_item esc p =
        nl @ ''        <div class=\"package-item\">'' @ nl @
        ''            <h3><a href=\"'' @ urlescaper esc (RepoURL p) @ ''\">''
          @ htmlescaper esc (ImportPath p) @ ''</a></h3>'' @ nl @
        ''            '' @ nl @
        ''            <p>'' @ htmlescaper esc (Description p) @ ''</p>'' @ nl @
        ''            '' @ nl @
        ''            <p><code>go get '' @ htmlescaper esc (ImportPath p) @ ''</code></p>'' @ nl @
        ''        </div>'' @ nl @ ''        ''"
    by (simp add: index_item_def nl_def)
qed

theorem description_only_on_index_witness:
  "import_page plain \<lparr>ImportPath = ''pkg.blksails.net/foo'',
      RepoURL = ''https://github.com/blksails/foo'', Description = ''Foo''\<rparr> =
   import_page plain \<lparr>ImportPath = ''pkg.blksails.net/foo'',
      RepoURL = ''https://github.com/blksails/foo'', Description = ''''\<rparr> \<and>
   index_item plain \<lparr>ImportPath = ''pkg.blksails.net/foo'',
      RepoURL = ''https://github.com/blksails/foo'', Description = ''''\<rparr> =
     nl @ ''        <div class=\"package-item\">'' @ nl @
     ''            <h3><a href=\"https://github.com/blksails/foo\">pkg.blksails.net/foo</a></h3>'' @ nl @
     ''            '' @ nl @
     ''            <p><code>go get pkg.blksails.net/foo</code></p>'' @ nl @
     ''        </div>'' @ nl @ ''        '' \<and>
   index_item plain \<lparr>ImportPath = ''pkg.blksails.net/foo'',
      RepoURL = ''https://github.com/blksails/foo'', Description = ''Foo''\<rparr> =
     nl @ ''        <div class=\"package-item\">'' @ nl @
     ''            <h3><a href=\"https://github.com/blksails/foo\">pkg.blksails.net/foo</a></h3>'' @ nl @
     ''            '' @ nl @
     ''            <p>Foo</p>'' @ nl @
     ''            '' @ nl @
     ''            <p><code>go get pkg.blksails.net/foo</code></p>'' @ nl @
     ''        </div>'' @ nl @ ''        ''"
  using description_only_on_index [of
      "\<lparr>ImportPath = ''pkg.blksails.net/foo'', RepoURL = ''https://github.com/blksails/foo'',
        Description = ''Foo''\<rparr>"
      "\<lparr>ImportPath = ''pkg.blksails.net/foo'', RepoURL = ''https://github.com/blksails/foo'',
        Description = ''''\<rparr>" plain scenario init]
    description_only_on_index [of
      "\<lparr>ImportPath = ''pkg.blksails.net/foo'', RepoURL = ''https://github.com/blksails/foo'',
        Description = ''''\<rparr>"
      "\<lparr>ImportPath = ''pkg.blksails.net/foo'', RepoURL = ''https://github.com/blksails/foo'',
        Description = ''''\<rparr>" plain scenario init]
  by (simp add: plain_def)

end
